theory Spec2Isabelle
  imports Main "HOL-Library.Sublist"
begin

section \<open>JavaScript values used by the two components\<close>

subsection \<open>Strings\<close>

text \<open>
  A JavaScript string is a sequence of UTF-16 code units. The model is \<^typ>\<open>string\<close>, so
  it covers the code units 0 to 255 (Latin-1); the built-ins below are written out for that
  range. \<open>String.prototype.trim\<close> and the regular-expression class \<open>\s\<close> use the same
  set of characters (WhiteSpace and LineTerminator of the language standard); in the range
  these are TAB, LF, VT, FF, CR, SPACE and NBSP. The class \<open>\d\<close> is the ten ASCII digits.
\<close>

definition is_space :: "char \<Rightarrow> bool" where
  "is_space c \<longleftrightarrow>
     c = CHR 0x09 \<or> c = CHR 0x0A \<or> c = CHR 0x0B \<or> c = CHR 0x0C \<or> c = CHR 0x0D
     \<or> c = CHR 0x20 \<or> c = CHR 0xA0"

definition is_digit :: "char \<Rightarrow> bool" where
  "is_digit c \<longleftrightarrow> (48::nat) \<le> of_char c \<and> of_char c \<le> (57::nat)"

text \<open>\<open>s.trim()\<close>: the longest run of whitespace is removed at each end.\<close>

definition trim :: "string \<Rightarrow> string" where
  "trim s = rev (dropWhile is_space (rev (dropWhile is_space s)))"

text \<open>
  \<open>s.toLowerCase()\<close>: in the range, the letters A to Z and the accented capitals
  0xC0 to 0xDE (without the multiplication sign 0xD7) move up by 32.
\<close>

definition toLowerCase_chr :: "char \<Rightarrow> char" where
  "toLowerCase_chr c =
     (let n = of_char c :: nat
      in if (65 \<le> n \<and> n \<le> 90) \<or> (192 \<le> n \<and> n \<le> 222 \<and> n \<noteq> 215)
         then char_of (n + 32) else c)"

definition toLowerCase :: "string \<Rightarrow> string" where
  "toLowerCase s = map toLowerCase_chr s"

text \<open>\<open>s.includes(sub)\<close>: \<open>sub\<close> occurs in \<open>s\<close> as a contiguous block.\<close>

fun includes_str :: "string \<Rightarrow> string \<Rightarrow> bool" where
  "includes_str [] sub = (sub = [])"
| "includes_str (c # cs) sub = (prefix sub (c # cs) \<or> includes_str cs sub)"

text \<open>
  \<open>s.split(sep)\<close> for a separator of one character: the segments between the
  separators, so a string without separator, the empty one too, gives one segment.
\<close>

fun split_chr :: "char \<Rightarrow> string \<Rightarrow> string list" where
  "split_chr sep [] = ['''']"
| "split_chr sep (c # cs) =
     (if c = sep then [] # split_chr sep cs
      else (case split_chr sep cs of
              [] \<Rightarrow> [c] # []
            | seg # segs \<Rightarrow> (c # seg) # segs))"

text \<open>\<open>xs.join(sep)\<close>, used to state what \<open>split\<close> computes.\<close>

fun join_chr :: "char \<Rightarrow> string list \<Rightarrow> string" where
  "join_chr sep [] = []"
| "join_chr sep [seg] = seg"
| "join_chr sep (seg # segs) = seg @ sep # join_chr sep segs"

subsection \<open>Numbers\<close>

text \<open>
  A JavaScript number is an IEEE-754 double. Integers of magnitude up to \<open>2^53\<close> are
  doubles, and a sum of two of them that stays in that range is exact. Every other double
  (a fraction, a rounded large value, an infinity) is \<open>Inexact\<close>: its value is not
  followed, only that it is a number.
\<close>

datatype number = Exact int | Inexact

definition mk_number :: "int \<Rightarrow> number" where
  "mk_number n = (if \<bar>n\<bar> \<le> 2 ^ 53 then Exact n else Inexact)"

fun num_add :: "number \<Rightarrow> number \<Rightarrow> number" where
  "num_add (Exact a) (Exact b) = mk_number (a + b)"
| "num_add _ _ = Inexact"

definition digit_val :: "char \<Rightarrow> nat" where
  "digit_val c = of_char c - 48"

definition decimal :: "string \<Rightarrow> nat" where
  "decimal ds = foldl (\<lambda>n c. 10 * n + digit_val c) 0 ds"

text \<open>
  \<open>parseInt(ds)\<close> on a string of decimal digits (the only argument it gets here, a
  capture of \<open>\d+\<close>): the decimal value, as a number.
\<close>

definition parseInt :: "string \<Rightarrow> number" where
  "parseInt ds = mk_number (int (decimal ds))"

subsection \<open>Parsed JSON\<close>

text \<open>
  The result of \<open>JSON.parse\<close>. An object is the list of its own properties. The
  TypeScript interfaces of the source are erased at run time, so whatever the reply holds
  is what the component stores: fields read from a reply have type \<open>json\<close>.
\<close>

datatype json =
    JNull
  | JBool bool
  | JNumber number
  | JString string
  | JArray "json list"
  | JObject "(string \<times> json) list"

datatype js_error = TypeError | SyntaxError | Error string | NetworkError

text \<open>
  \<open>v.key\<close> for the keys this program reads (none of them is a property of a
  prototype): the own property of an object, \<open>undefined\<close> (here \<open>None\<close>) on a
  boolean, a number, a string or an array, and a TypeError on \<open>null\<close>. An object holds
  each key once, as \<open>JSON.parse\<close> builds it.
\<close>

fun own_prop :: "json \<Rightarrow> string \<Rightarrow> json option" where
  "own_prop (JObject props) key = map_of props key"
| "own_prop _ key = None"

definition get_prop :: "json \<Rightarrow> string \<Rightarrow> js_error + json option" where
  "get_prop v key = (if v = JNull then Inl TypeError else Inr (own_prop v key))"

text \<open>Truthiness, as \<open>||\<close> tests it. \<open>JSON.parse\<close> never yields NaN.\<close>

fun truthy :: "json option \<Rightarrow> bool" where
  "truthy None = False"
| "truthy (Some JNull) = False"
| "truthy (Some (JBool b)) = b"
| "truthy (Some (JNumber (Exact n))) = (n \<noteq> 0)"
| "truthy (Some (JNumber Inexact)) = True"
| "truthy (Some (JString s)) = (s \<noteq> [])"
| "truthy (Some (JArray xs)) = True"
| "truthy (Some (JObject props)) = True"

text \<open>\<open>v || d\<close> on a value read from a reply.\<close>

definition js_or :: "json option \<Rightarrow> json \<Rightarrow> json" where
  "js_or v d = (case v of None \<Rightarrow> d | Some x \<Rightarrow> if truthy (Some x) then x else d)"

subsection \<open>The oracle\<close>

text \<open>
  One call \<open>groq.chat.completions.create\<close>: the promise is rejected, or it resolves
  and \<open>response.choices[0]?.message?.content\<close> is a string or is missing.
\<close>

datatype completion = Rejected | Resolved "string option"

section \<open>The interview assistant\<close>

subsection \<open>State\<close>

text \<open>
  The fields of \<open>ChatHistoryEntry\<close> carry the prefix \<open>entry_\<close>, since \<open>answer\<close>
  and \<open>question\<close> are also state variables of the components.
\<close>

record ChatHistoryEntry =
  entry_question :: string
  entry_answer :: string
  entry_feedback :: string
  entry_score :: number

record ResultAnalysis =
  overallPerformance :: string
  strengths :: "json list"
  weaknesses :: "json list"
  improvementSuggestions :: "json list"

text \<open>The \<open>useState\<close> variables of \<open>InterviewAssistant\<close>, with their initial values.\<close>

record interview_state =
  resumeText :: string
  skills :: "string list"
  currentQuestionIndex :: nat
  currentQuestion :: string
  answer :: string
  history :: "ChatHistoryEntry list"
  interviewing :: bool
  isResumeValid :: "bool option"
  isProcessing :: bool
  totalScore :: number
  questions :: "string list"
  interviewCompleted :: bool
  resultAnalysis :: "ResultAnalysis option"
  selectedMcqOption :: "nat option"

definition initial_interview :: interview_state where
  "initial_interview =
     \<lparr>resumeText = [], skills = [], currentQuestionIndex = 0, currentQuestion = [],
      answer = [], history = [], interviewing = False, isResumeValid = None,
      isProcessing = False, totalScore = Exact 0, questions = [],
      interviewCompleted = False, resultAnalysis = None, selectedMcqOption = None\<rparr>"

text \<open>
  The requests a handler sends to the oracle, each with the values its prompt
  interpolates.
\<close>

datatype request =
    VerifyResume string
  | ExtractSkills string
  | GenerateQuestions "string list"
  | ScoreAnswer string string
  | AnalyzeResults "ChatHistoryEntry list"

subsection \<open>Resume upload\<close>

text \<open>
  \<open>extractSkills\<close>: the call is not guarded, so a rejection is thrown to the caller.
  An array is truthy, so \<open>|| []\<close> applies only when the content is missing.
\<close>

definition extractSkills :: "completion \<Rightarrow> js_error + string list" where
  "extractSkills response =
     (case response of
        Rejected \<Rightarrow> Inl NetworkError
      | Resolved content \<Rightarrow>
          Inr (case content of
                 None \<Rightarrow> []
               | Some text \<Rightarrow> map trim (split_chr (CHR '','') text)))"

text \<open>
  What the file input delivers to \<open>handleFileUpload\<close>: no file, a file that pdf.js
  cannot read (it throws inside the \<open>try\<close>), or a document with its extracted text.
\<close>

datatype upload = NoFile | Unreadable | Pdf string

definition isResume :: "string option \<Rightarrow> bool" where
  "isResume content =
     (case content of
        None \<Rightarrow> False
      | Some text \<Rightarrow> includes_str (toLowerCase text) ''yes'')"

definition handleFileUpload ::
  "upload \<Rightarrow> completion \<Rightarrow> completion \<Rightarrow> interview_state \<Rightarrow> interview_state" where
  "handleFileUpload file verificationResponse skillsResponse s =
     (case file of
        NoFile \<Rightarrow> s
      | Unreadable \<Rightarrow> s\<lparr>isResumeValid := Some False, isProcessing := False\<rparr>
      | Pdf extractedText \<Rightarrow>
          (case verificationResponse of
             Rejected \<Rightarrow> s\<lparr>isResumeValid := Some False, isProcessing := False\<rparr>
           | Resolved content \<Rightarrow>
               if isResume content then
                 (case extractSkills skillsResponse of
                    Inl e \<Rightarrow>
                      s\<lparr>resumeText := extractedText, isResumeValid := Some False,
                        isProcessing := False\<rparr>
                  | Inr extractedSkills \<Rightarrow>
                      s\<lparr>resumeText := extractedText, skills := extractedSkills,
                        isResumeValid := Some True, isProcessing := False\<rparr>)
               else s\<lparr>isResumeValid := Some False, isProcessing := False\<rparr>))"

subsection \<open>Question generation\<close>

text \<open>
  \<open>q.replace(/^\d+\.\s*/, '')\<close>. The pattern is anchored at the start. \<open>\d+\<close> is
  greedy and the next pattern character is not a digit, so the digits matched are the
  whole leading run; without a match the string is returned as it is.
\<close>

definition strip_marker :: "string \<Rightarrow> string" where
  "strip_marker q =
     (let ds = takeWhile is_digit q; r = dropWhile is_digit q
      in if ds \<noteq> [] \<and> prefix ''.'' r then dropWhile is_space (drop 1 r) else q)"

definition generatedQuestions :: "string option \<Rightarrow> string list" where
  "generatedQuestions content =
     (case content of
        None \<Rightarrow> []
      | Some text \<Rightarrow>
          map (\<lambda>q. trim (strip_marker q))
            (filter (\<lambda>q. length (trim q) > 0) (split_chr (CHR 0x0A) text)))"

definition generateQuestions :: "completion \<Rightarrow> js_error + string list" where
  "generateQuestions response =
     (case response of
        Rejected \<Rightarrow> Inl NetworkError
      | Resolved content \<Rightarrow> Inr (take 10 (generatedQuestions content)))"

definition startInterview :: "completion \<Rightarrow> interview_state \<Rightarrow> interview_state" where
  "startInterview response s =
     (if length (skills s) = 0 then s
      else
        let s1 = s\<lparr>history := [], totalScore := Exact 0, interviewing := True,
                   currentQuestionIndex := 0, interviewCompleted := False,
                   selectedMcqOption := None\<rparr>
        in case generateQuestions response of
             Inl e \<Rightarrow> s1
           | Inr qs \<Rightarrow>
               if length qs > 0 then s1\<lparr>questions := qs, currentQuestion := qs ! 0\<rparr>
               else s1\<lparr>questions := qs\<rparr>)"

subsection \<open>Answer scoring\<close>

text \<open>
  A regular expression without the sticky flag is tried at each start index from the
  left, and the first index where it matches wins. \<open>regex_search m t\<close> runs the anchored
  matcher \<open>m\<close> that way and returns the text before the match with what \<open>m\<close> returned.
\<close>

fun regex_search :: "(string \<Rightarrow> 'a option) \<Rightarrow> string \<Rightarrow> (string \<times> 'a) option" where
  "regex_search m [] = map_option (Pair []) (m [])"
| "regex_search m (c # cs) =
     (case m (c # cs) of
        Some r \<Rightarrow> Some ([], r)
      | None \<Rightarrow> map_option (\<lambda>(pre, r). (c # pre, r)) (regex_search m cs))"

text \<open>
  The literal \<open>Score: \<close> under the flag \<open>i\<close>. In the range a character matches a
  letter of the literal exactly when its lower case is that letter in lower case.
\<close>

definition score_head :: "string \<Rightarrow> string option" where
  "score_head t =
     (if toLowerCase (take 7 t) = ''score: '' then Some (drop 7 t) else None)"

text \<open>
  \<open>/Score: (\d+)\/10/i\<close> anchored at the start of \<open>t\<close>: the captured digits and the
  text after the match. After the digits the pattern wants \<open>/\<close>, which is not a digit,
  so the capture is the whole run of digits.
\<close>

definition scoreMatch_at :: "string \<Rightarrow> (string \<times> string) option" where
  "scoreMatch_at t =
     (case score_head t of
        None \<Rightarrow> None
      | Some r \<Rightarrow>
          let ds = takeWhile is_digit r; r' = dropWhile is_digit r
          in if ds \<noteq> [] \<and> prefix ''/10'' r' then Some (ds, drop 3 r') else None)"

text \<open>
  \<open>/Score: \d+\/10\.?\s*/i\<close> anchored at the start of \<open>t\<close>: the text after the match.
  Both \<open>\.?\<close> and \<open>\s*\<close> are greedy and nothing follows them.
\<close>

definition scoreReplace_at :: "string \<Rightarrow> string option" where
  "scoreReplace_at t =
     (case scoreMatch_at t of
        None \<Rightarrow> None
      | Some (ds, r) \<Rightarrow> Some (dropWhile is_space (if prefix ''.'' r then drop 1 r else r)))"

text \<open>\<open>feedbackText.match(/Score: (\d+)\/10/i)\<close>, reduced to its capture group 1.\<close>

definition scoreMatch :: "string \<Rightarrow> string option" where
  "scoreMatch t = map_option (\<lambda>(pre, ds, r). ds) (regex_search scoreMatch_at t)"

text \<open>\<open>feedbackText.replace(/Score: \d+\/10\.?\s*/i, '')\<close>: the first match is cut out.\<close>

definition scoreReplace :: "string \<Rightarrow> string" where
  "scoreReplace t =
     (case regex_search scoreReplace_at t of
        None \<Rightarrow> t
      | Some (pre, rest) \<Rightarrow> pre @ rest)"

text \<open>The three local constants of \<open>handleAnswerSubmit\<close> (lines 174 to 177).\<close>

definition feedbackText :: "string option \<Rightarrow> string" where
  "feedbackText content =
     (case content of
        None \<Rightarrow> ''No feedback available.''
      | Some text \<Rightarrow> if text = [] then ''No feedback available.'' else text)"

definition score :: "string \<Rightarrow> number" where
  "score ft = (case scoreMatch ft of Some ds \<Rightarrow> parseInt ds | None \<Rightarrow> Exact 5)"

definition feedback :: "string \<Rightarrow> string" where
  "feedback ft = trim (scoreReplace ft)"

subsection \<open>Result analysis\<close>

text \<open>
  \<open>JSON.parse\<close> is a built-in of the platform. The functions that call it take it as
  the parameter \<open>JSON_parse\<close>, \<open>None\<close> standing for the SyntaxError it throws.
\<close>

definition defaultAnalysis :: ResultAnalysis where
  "defaultAnalysis =
     \<lparr>overallPerformance = ''average'',
      strengths = [JString ''No strengths identified'', JString ''N/A'', JString ''N/A''],
      weaknesses = [JString ''No weaknesses identified'', JString ''N/A'', JString ''N/A''],
      improvementSuggestions =
        [JString ''Review your answers'', JString ''Practice more'',
         JString ''Study relevant materials'']\<rparr>"

text \<open>The object of the \<open>catch\<close> block of \<open>analyzeResults\<close>.\<close>

definition fallbackAnalysis :: ResultAnalysis where
  "fallbackAnalysis =
     \<lparr>overallPerformance = ''average'',
      strengths = [JString ''Could not analyze'', JString ''N/A'', JString ''N/A''],
      weaknesses = [JString ''Could not analyze'', JString ''N/A'', JString ''N/A''],
      improvementSuggestions =
        [JString ''Review your answers'', JString ''Practice more'',
         JString ''Study relevant materials'']\<rparr>"

definition performances :: "string list" where
  "performances = [''excellent'', ''good'', ''average'', ''needs improvement'']"

text \<open>
  \<open>[...].includes(v?.toLowerCase()) ? v.toLowerCase() : default\<close>. The optional call
  stops at \<open>undefined\<close> and \<open>null\<close>; a string is lower-cased; any other value has no
  method \<open>toLowerCase\<close> and the call throws a TypeError.
\<close>

fun validatedPerformance :: "json option \<Rightarrow> js_error + string" where
  "validatedPerformance None = Inr (overallPerformance defaultAnalysis)"
| "validatedPerformance (Some JNull) = Inr (overallPerformance defaultAnalysis)"
| "validatedPerformance (Some (JString v)) =
     Inr (if toLowerCase v \<in> set performances then toLowerCase v
          else overallPerformance defaultAnalysis)"
| "validatedPerformance (Some _) = Inl TypeError"

text \<open>\<open>Array.isArray(v) && v.length >= 3 ? [v[0], v[1], v[2]] : default\<close>.\<close>

definition validatedList :: "json option \<Rightarrow> json list \<Rightarrow> json list" where
  "validatedList v dflt =
     (case v of
        Some (JArray xs) \<Rightarrow> if length xs \<ge> 3 then [xs ! 0, xs ! 1, xs ! 2] else dflt
      | _ \<Rightarrow> dflt)"

text \<open>
  The object literal \<open>validatedAnalysis\<close> (lines 251 to 265). Its first property read
  throws on \<open>null\<close>; after it the value is known not to be \<open>null\<close>.
\<close>

definition validatedAnalysis :: "json \<Rightarrow> js_error + ResultAnalysis" where
  "validatedAnalysis parsedAnalysis =
     (case get_prop parsedAnalysis ''overallPerformance'' of
        Inl e \<Rightarrow> Inl e
      | Inr v \<Rightarrow>
          (case validatedPerformance v of
             Inl e \<Rightarrow> Inl e
           | Inr perf \<Rightarrow>
               Inr \<lparr>overallPerformance = perf,
                    strengths =
                      validatedList (own_prop parsedAnalysis ''strengths'')
                        (strengths defaultAnalysis),
                    weaknesses =
                      validatedList (own_prop parsedAnalysis ''weaknesses'')
                        (weaknesses defaultAnalysis),
                    improvementSuggestions =
                      validatedList (own_prop parsedAnalysis ''improvementSuggestions'')
                        (improvementSuggestions defaultAnalysis)\<rparr>))"

definition rawAnalysis :: "string option \<Rightarrow> string" where
  "rawAnalysis content =
     (case content of
        None \<Rightarrow> ''{}''
      | Some text \<Rightarrow> if text = [] then ''{}'' else text)"

text \<open>\<open>analyzeResults\<close>: the value it passes to \<open>setResultAnalysis\<close>.\<close>

definition analyzeResults :: "(string \<Rightarrow> json option) \<Rightarrow> completion \<Rightarrow> ResultAnalysis" where
  "analyzeResults JSON_parse response =
     (case response of
        Rejected \<Rightarrow> fallbackAnalysis
      | Resolved content \<Rightarrow>
          (case JSON_parse (rawAnalysis content) of
             None \<Rightarrow> fallbackAnalysis
           | Some parsedAnalysis \<Rightarrow>
               (case validatedAnalysis parsedAnalysis of
                  Inl e \<Rightarrow> fallbackAnalysis
                | Inr validated \<Rightarrow> validated)))"

subsection \<open>Answer submission\<close>

text \<open>
  \<open>handleAnswerSubmit\<close> returns the new state and the requests it has sent. The scoring
  call is not guarded: when it is rejected the handler stops with the state as it was.
\<close>

definition handleAnswerSubmit ::
  "(string \<Rightarrow> json option) \<Rightarrow> completion \<Rightarrow> completion \<Rightarrow> interview_state
     \<Rightarrow> interview_state \<times> request list" where
  "handleAnswerSubmit JSON_parse feedbackResponse analysisResponse s =
     (if trim (answer s) = [] then (s, [])
      else
        (case feedbackResponse of
           Rejected \<Rightarrow> (s, [ScoreAnswer (currentQuestion s) (answer s)])
         | Resolved content \<Rightarrow>
             let ft = feedbackText content;
                 newHistory = history s @
                   [\<lparr>entry_question = currentQuestion s, entry_answer = answer s,
                     entry_feedback = feedback ft, entry_score = score ft\<rparr>];
                 s1 = s\<lparr>history := newHistory,
                        totalScore := num_add (totalScore s) (score ft),
                        answer := []\<rparr>
             in if currentQuestionIndex s + 1 < length (questions s) then
                  (s1\<lparr>currentQuestionIndex := currentQuestionIndex s + 1,
                      currentQuestion := questions s ! (currentQuestionIndex s + 1)\<rparr>,
                   [ScoreAnswer (currentQuestion s) (answer s)])
                else
                  (s1\<lparr>resultAnalysis := Some (analyzeResults JSON_parse analysisResponse),
                      interviewing := False,
                      interviewCompleted := True\<rparr>,
                   [ScoreAnswer (currentQuestion s) (answer s),
                    AnalyzeResults (take 3 newHistory)])))"

text \<open>
  A session as the page lets the user drive it: the answer form is rendered only while
  \<open>interviewing\<close> holds and \<open>interviewCompleted\<close> does not, and each handler runs to its
  end before the next event.
\<close>

datatype event = SetAnswer string | SubmitAnswer completion completion

definition form_shown :: "interview_state \<Rightarrow> bool" where
  "form_shown s \<longleftrightarrow> interviewing s \<and> \<not> interviewCompleted s"

definition ui_step :: "(string \<Rightarrow> json option) \<Rightarrow> interview_state \<Rightarrow> event \<Rightarrow> interview_state" where
  "ui_step JSON_parse s ev =
     (if form_shown s then
        (case ev of
           SetAnswer text \<Rightarrow> s\<lparr>answer := text\<rparr>
         | SubmitAnswer feedbackResponse analysisResponse \<Rightarrow>
             fst (handleAnswerSubmit JSON_parse feedbackResponse analysisResponse s))
      else s)"

definition run :: "(string \<Rightarrow> json option) \<Rightarrow> interview_state \<Rightarrow> event list \<Rightarrow> interview_state" where
  "run JSON_parse s evs = foldl (ui_step JSON_parse) s evs"

section \<open>The code challenge with test cases\<close>

subsection \<open>State\<close>

record AnalysisResult =
  timeComplexity :: json
  spaceComplexity :: json
  suggestion :: "json option"
  correctedCode :: "json option"

datatype tab = Testcases | Results

text \<open>
  The \<open>useState\<close> variables of the second \<open>CodeEditor\<close>. The question, the test cases
  and the test results are stored as the reply gives them.
\<close>

record editor_state =
  code :: string
  question :: json
  analysis :: AnalysisResult
  loading :: bool
  language :: string
  questionLoading :: bool
  showCorrectedCode :: bool
  difficulty :: string
  topic :: string
  testCases :: json
  testResults :: json
  runningTests :: bool
  activeTab :: tab
  time :: nat
  isRunning :: bool

definition notAnalyzed :: AnalysisResult where
  "notAnalyzed =
     \<lparr>timeComplexity = JString ''Not analyzed yet'',
      spaceComplexity = JString ''Not analyzed yet'',
      suggestion = None, correctedCode = None\<rparr>"

definition initial_editor :: editor_state where
  "initial_editor =
     \<lparr>code = [], question = JString ''Loading question...'', analysis = notAnalyzed,
      loading = False, language = ''java'', questionLoading = True,
      showCorrectedCode = False, difficulty = ''medium'', topic = ''array'',
      testCases = JArray [], testResults = JArray [], runningTests = False,
      activeTab = Testcases, time = 0, isRunning = False\<rparr>"

definition startStopwatch :: "editor_state \<Rightarrow> editor_state" where
  "startStopwatch s = s\<lparr>isRunning := True\<rparr>"

definition stopStopwatch :: "editor_state \<Rightarrow> editor_state" where
  "stopStopwatch s = s\<lparr>isRunning := False\<rparr>"

definition resetStopwatch :: "editor_state \<Rightarrow> editor_state" where
  "resetStopwatch s = s\<lparr>isRunning := False, time := 0\<rparr>"

subsection \<open>Question generation\<close>

text \<open>
  The \<open>try\<close> block of \<open>generateQuestion\<close>, run on the state the handler has prepared.
  It throws when the call is rejected, when the content is missing or empty, when
  \<open>JSON.parse\<close> throws, and when the parsed value is \<open>null\<close> (reading \<open>result.question\<close>).
\<close>

definition generateQuestion_try ::
  "(string \<Rightarrow> json option) \<Rightarrow> completion \<Rightarrow> editor_state \<Rightarrow> js_error + editor_state" where
  "generateQuestion_try JSON_parse response s =
     (case response of
        Rejected \<Rightarrow> Inl NetworkError
      | Resolved None \<Rightarrow> Inl (Error ''Couldn't generate question'')
      | Resolved (Some content) \<Rightarrow>
          if content = [] then Inl (Error ''Couldn't generate question'')
          else
            (case JSON_parse content of
               None \<Rightarrow> Inl SyntaxError
             | Some result \<Rightarrow>
                 (case get_prop result ''question'' of
                    Inl e \<Rightarrow> Inl e
                  | Inr q \<Rightarrow>
                      Inr (startStopwatch
                        (s\<lparr>question := js_or q (JString ''Couldn't generate question''),
                           testCases := js_or (own_prop result ''testCases'') (JArray []),
                           testResults := JArray [],
                           code := [],
                           analysis := notAnalyzed\<rparr>)))))"

definition generateQuestion ::
  "(string \<Rightarrow> json option) \<Rightarrow> completion \<Rightarrow> editor_state \<Rightarrow> editor_state" where
  "generateQuestion JSON_parse response s =
     (let s0 = resetStopwatch (s\<lparr>questionLoading := True\<rparr>)
      in case generateQuestion_try JSON_parse response s0 of
           Inr s1 \<Rightarrow> s1\<lparr>questionLoading := False\<rparr>
         | Inl e \<Rightarrow>
             (stopStopwatch
               (s0\<lparr>question := JString
                 ''We couldn't load a question. Please check your connection and try again.''\<rparr>))
             \<lparr>questionLoading := False\<rparr>)"

text \<open>
  What makes the component generate a question: the effect that runs on mount and when
  \<open>language\<close>, \<open>difficulty\<close> or \<open>topic\<close> changes (it calls \<open>generateQuestion\<close> and then
  \<open>resetStopwatch\<close>, before the reply arrives), and the button \<open>New Question\<close>.
\<close>

datatype trigger =
    Mount
  | SetLanguage string
  | SetDifficulty string
  | SetTopic string
  | NewQuestion

fun prepare :: "trigger \<Rightarrow> editor_state \<Rightarrow> editor_state" where
  "prepare Mount s = s"
| "prepare (SetLanguage v) s = s\<lparr>language := v\<rparr>"
| "prepare (SetDifficulty v) s = s\<lparr>difficulty := v\<rparr>"
| "prepare (SetTopic v) s = s\<lparr>topic := v\<rparr>"
| "prepare NewQuestion s = s"

definition fire ::
  "(string \<Rightarrow> json option) \<Rightarrow> trigger \<Rightarrow> completion \<Rightarrow> editor_state \<Rightarrow> editor_state" where
  "fire JSON_parse tr response s = generateQuestion JSON_parse response (prepare tr s)"

subsection \<open>Running the test cases\<close>

datatype editor_effect =
    Alert string
  | RunTestsCall json string string json

text \<open>The state in which \<open>runTestCases\<close> sends its request.\<close>

definition runTestCases_begin :: "editor_state \<Rightarrow> editor_state" where
  "runTestCases_begin s =
     stopStopwatch (s\<lparr>runningTests := True, testResults := JArray [], activeTab := Results\<rparr>)"

definition runTestCases_try ::
  "(string \<Rightarrow> json option) \<Rightarrow> completion \<Rightarrow> editor_state \<Rightarrow> js_error + editor_state" where
  "runTestCases_try JSON_parse response s =
     (case response of
        Rejected \<Rightarrow> Inl NetworkError
      | Resolved None \<Rightarrow> Inl (Error ''Test execution failed'')
      | Resolved (Some content) \<Rightarrow>
          if content = [] then Inl (Error ''Test execution failed'')
          else
            (case JSON_parse content of
               None \<Rightarrow> Inl SyntaxError
             | Some result \<Rightarrow>
                 (case get_prop result ''testResults'' of
                    Inl e \<Rightarrow> Inl e
                  | Inr v \<Rightarrow> Inr (s\<lparr>testResults := js_or v (JArray [])\<rparr>))))"

definition runTestCases ::
  "(string \<Rightarrow> json option) \<Rightarrow> completion \<Rightarrow> editor_state
     \<Rightarrow> editor_state \<times> editor_effect list" where
  "runTestCases JSON_parse response s =
     (if trim (code s) = [] then (s, [Alert ''Please write your solution code first''])
      else
        let s0 = runTestCases_begin s;
            call = RunTestsCall (question s) (language s) (code s) (testCases s)
        in case runTestCases_try JSON_parse response s0 of
             Inr s1 \<Rightarrow> (s1\<lparr>runningTests := False\<rparr>, [call])
           | Inl e \<Rightarrow> (s0\<lparr>runningTests := False\<rparr>, [call, Alert ''Failed to run test cases'']))"

section \<open>Example replies\<close>

text \<open>
  The examples below need \<open>JSON.parse\<close> on a few concrete reply texts.
  \<open>JSON_parse_sample\<close> gives the value of \<open>JSON.parse\<close> on those texts; it rejects every
  other text, and the examples apply it to no other text than these and the malformed
  \<open>I cannot do that.\<close>.
\<close>

definition quoted :: "string \<Rightarrow> string" where
  "quoted s = CHR 0x22 # s @ [CHR 0x22]"

definition analysis_text :: string where
  "analysis_text =
     ''{'' @ quoted ''overallPerformance'' @ '':'' @ quoted ''GOOD'' @ '','' @
     quoted ''strengths'' @ '':['' @ quoted ''a'' @ '','' @ quoted ''b'' @ '','' @
     quoted ''c'' @ '','' @ quoted ''d'' @ ''],'' @
     quoted ''weaknesses'' @ '':['' @ quoted ''x'' @ '','' @ quoted ''y'' @ '']}''"

definition analysis_value :: json where
  "analysis_value =
     JObject [(''overallPerformance'', JString ''GOOD''),
              (''strengths'', JArray [JString ''a'', JString ''b'', JString ''c'', JString ''d'']),
              (''weaknesses'', JArray [JString ''x'', JString ''y''])]"

definition numeric_text :: string where
  "numeric_text =
     ''{'' @ quoted ''overallPerformance'' @ '':3,'' @
     quoted ''strengths'' @ '':['' @ quoted ''a'' @ '','' @ quoted ''b'' @ '','' @
     quoted ''c'' @ '']}''"

definition numeric_value :: json where
  "numeric_value =
     JObject [(''overallPerformance'', JNumber (Exact 3)),
              (''strengths'', JArray [JString ''a'', JString ''b'', JString ''c''])]"

definition case_text :: "string \<Rightarrow> string \<Rightarrow> string" where
  "case_text i out =
     ''{'' @ quoted ''input'' @ '':'' @ quoted i @ '','' @
     quoted ''expectedOutput'' @ '':'' @ quoted out @ ''}''"

definition case_value :: "string \<Rightarrow> string \<Rightarrow> json" where
  "case_value i out = JObject [(''input'', JString i), (''expectedOutput'', JString out)]"

definition question_text :: string where
  "question_text =
     ''{'' @ quoted ''question'' @ '':'' @ quoted ''Reverse an array'' @ '','' @
     quoted ''testCases'' @ '':['' @ case_text ''[1,2]'' ''[2,1]'' @ '','' @
     case_text ''[]'' ''[]'' @ '','' @ case_text ''[7]'' ''[7]'' @ '']}''"

definition question_value :: json where
  "question_value =
     JObject [(''question'', JString ''Reverse an array''),
              (''testCases'', JArray [case_value ''[1,2]'' ''[2,1]'', case_value ''[]'' ''[]'',
                                      case_value ''[7]'' ''[7]''])]"

definition JSON_parse_sample :: "string \<Rightarrow> json option" where
  "JSON_parse_sample text =
     (if text = ''{}'' then Some (JObject [])
      else if text = ''null'' then Some JNull
      else if text = analysis_text then Some analysis_value
      else if text = numeric_text then Some numeric_value
      else if text = question_text then Some question_value
      else None)"

section \<open>Patterns in a reply text\<close>

text \<open>
  The pattern \<open>Score: <integer>/10\<close> in a reply text: the text is \<open>pre\<close>, the word
  \<open>Score: \<close> in any letter case, one or more digits \<open>ds\<close>, \<open>/10\<close>, and \<open>post\<close>. The first
  pattern of a text is the one that starts furthest to the left.
\<close>

definition score_pattern :: "string \<Rightarrow> string \<Rightarrow> string \<Rightarrow> string \<Rightarrow> string \<Rightarrow> bool" where
  "score_pattern text pre kw ds post \<longleftrightarrow>
     text = pre @ kw @ ds @ ''/10'' @ post \<and> toLowerCase kw = ''score: ''
     \<and> ds \<noteq> [] \<and> list_all is_digit ds"

definition first_score_pattern :: "string \<Rightarrow> string \<Rightarrow> string \<Rightarrow> string \<Rightarrow> string \<Rightarrow> bool" where
  "first_score_pattern text pre kw ds post \<longleftrightarrow>
     score_pattern text pre kw ds post
     \<and> (\<forall>pre' kw' ds' post'. score_pattern text pre' kw' ds' post' \<longrightarrow> length pre \<le> length pre')"


definition numbered_line :: "string \<Rightarrow> bool" where
  "numbered_line q \<longleftrightarrow>
     takeWhile is_digit q \<noteq> [] \<and> prefix ''.'' (dropWhile is_digit q)"

text \<open>
  What the validation of one list field is to give: the first 3 entries of the field when
  it is a list with at least 3 entries, and the default list in every other case.
\<close>

definition field_rule :: "json option \<Rightarrow> json list \<Rightarrow> json list \<Rightarrow> bool" where
  "field_rule v dflt out \<longleftrightarrow>
     (\<forall>xs. v = Some (JArray xs) \<and> 3 \<le> length xs \<longrightarrow> out = take 3 xs)
     \<and> ((\<nexists>xs. v = Some (JArray xs) \<and> 3 \<le> length xs) \<longrightarrow> out = dflt)"

text \<open>
  How often the completion flag is set in the course of a session: the number of events
  that find it false and leave it true.
\<close>

fun completions :: "(string \<Rightarrow> json option) \<Rightarrow> interview_state \<Rightarrow> event list \<Rightarrow> nat" where
  "completions JSON_parse s [] = 0"
| "completions JSON_parse s (ev # evs) =
     (if \<not> interviewCompleted s \<and> interviewCompleted (ui_step JSON_parse s ev) then 1 else 0)
     + completions JSON_parse (ui_step JSON_parse s ev) evs"

section \<open>An example session\<close>

definition two_questions_text :: string where
  "two_questions_text = ''1. What is SQL?'' @ [CHR 0x0A] @ ''2. What is a join?''"




definition uploaded :: interview_state where
  "uploaded =
     handleFileUpload (Pdf ''Curriculum'') (Resolved (Some ''Yes''))
       (Resolved (Some ''SQL, Python'')) initial_interview"

definition started :: interview_state where
  "started = startInterview (Resolved (Some two_questions_text)) uploaded"

definition answering :: interview_state where
  "answering = ui_step JSON_parse_sample started (SetAnswer ''A query language'')"

definition two_answers :: "event list" where
  "two_answers =
     [SetAnswer ''A query language'',
      SubmitAnswer (Resolved (Some ''Score: 8/10. Feedback: Right.'')) Rejected,
      SetAnswer ''It combines tables'',
      SubmitAnswer (Resolved (Some ''Score: 6/10. Feedback: Too short.''))
        (Resolved (Some analysis_text))]"

definition started_empty :: interview_state where
  "started_empty = startInterview (Resolved (Some [])) uploaded"

definition one_answer :: "event list" where
  "one_answer =
     [SetAnswer ''Anything'',
      SubmitAnswer (Resolved (Some ''Score: 8/10. Feedback: Right.'')) (Resolved (Some ''{}''))]"

section \<open>Properties of the built-ins\<close>

lemma trim_eq_Nil_iff: "trim t = [] \<longleftrightarrow> (\<forall>c\<in>set t. is_space c)"
proof -
  have "trim t = [] \<longleftrightarrow> (\<forall>c\<in>set (dropWhile is_space t). is_space c)"
    by (simp add: trim_def dropWhile_eq_Nil_conv)
  also have "\<dots> \<longleftrightarrow> dropWhile is_space t = []"
  proof
    assume a: "\<forall>c\<in>set (dropWhile is_space t). is_space c"
    show "dropWhile is_space t = []"
    proof (rule ccontr)
      assume n: "dropWhile is_space t \<noteq> []"
      then have "\<not> is_space (hd (dropWhile is_space t))" by (rule hd_dropWhile)
      moreover have "hd (dropWhile is_space t) \<in> set (dropWhile is_space t)" using n by simp
      ultimately show False using a by blast
    qed
  qed (auto dest: set_dropWhileD)
  also have "\<dots> \<longleftrightarrow> (\<forall>c\<in>set t. is_space c)" by (simp add: dropWhile_eq_Nil_conv)
  finally show ?thesis .
qed

lemma includes_str_iff: "includes_str s sub \<longleftrightarrow> (\<exists>pre post. s = pre @ sub @ post)"
proof (induction s)
  case Nil
  then show ?case by auto
next
  case (Cons c cs)
  show ?case
  proof
    assume "includes_str (c # cs) sub"
    then consider "prefix sub (c # cs)" | "includes_str cs sub" by auto
    then show "\<exists>pre post. c # cs = pre @ sub @ post"
    proof cases
      case 1
      then obtain zs where "c # cs = sub @ zs" by (auto simp: prefix_def)
      then have "c # cs = [] @ sub @ zs" by simp
      then show ?thesis by blast
    next
      case 2
      then obtain pre post where "cs = pre @ sub @ post" using Cons.IH by blast
      then have "c # cs = (c # pre) @ sub @ post" by simp
      then show ?thesis by blast
    qed
  next
    assume "\<exists>pre post. c # cs = pre @ sub @ post"
    then obtain pre post where e: "c # cs = pre @ sub @ post" by blast
    show "includes_str (c # cs) sub"
    proof (cases pre)
      case Nil
      then have "prefix sub (c # cs)" using e by (simp add: prefix_def)
      then show ?thesis by simp
    next
      case (Cons p ps)
      then have "cs = ps @ sub @ post" using e by simp
      then have "includes_str cs sub" using Cons.IH by blast
      then show ?thesis by simp
    qed
  qed
qed

lemma split_chr_not_Nil: "split_chr sep t \<noteq> []"
  by (induction t) (auto split: list.splits)

lemma join_split_chr: "join_chr sep (split_chr sep t) = t"
proof (induction t)
  case Nil
  then show ?case by simp
next
  case (Cons c cs)
  obtain seg segs where s: "split_chr sep cs = seg # segs"
    using split_chr_not_Nil [of sep cs] by (cases "split_chr sep cs") auto
  show ?case
  proof (cases "c = sep")
    case True
    then show ?thesis using Cons s by simp
  next
    case False
    then show ?thesis using Cons s by (cases segs) auto
  qed
qed

lemma split_chr_no_sep: "seg \<in> set (split_chr sep t) \<Longrightarrow> sep \<notin> set seg"
proof (induction t arbitrary: seg)
  case Nil
  then show ?case by simp
next
  case (Cons c cs)
  then show ?case
    by (cases "split_chr sep cs") (auto split: if_splits)
qed

lemma length_split_chr: "length (split_chr sep t) = Suc (count_list t sep)"
proof (induction t)
  case Nil
  then show ?case by simp
next
  case (Cons c cs)
  then show ?case
    by (cases "split_chr sep cs") auto
qed

lemma trim_decomp:
  "\<exists>pre post. t = pre @ trim t @ post \<and> list_all is_space pre \<and> list_all is_space post"
proof -
  let ?u = "dropWhile is_space t"
  have 1: "t = takeWhile is_space t @ ?u" by simp
  have "rev ?u = takeWhile is_space (rev ?u) @ dropWhile is_space (rev ?u)" by simp
  then have "?u = rev (dropWhile is_space (rev ?u)) @ rev (takeWhile is_space (rev ?u))"
    by (metis rev_append rev_rev_ident)
  then have 2: "?u = trim t @ rev (takeWhile is_space (rev ?u))" by (simp add: trim_def)
  have 3: "list_all is_space (takeWhile is_space t)"
    by (simp add: list_all_iff) (meson set_takeWhileD)
  have 4: "list_all is_space (rev (takeWhile is_space (rev ?u)))"
    by (simp add: list_all_iff) (meson set_takeWhileD)
  from 1 2 have "t = takeWhile is_space t @ trim t @ rev (takeWhile is_space (rev ?u))"
    by metis
  with 3 4 show ?thesis by blast
qed

lemma trim_ends:
  assumes "trim t \<noteq> []"
  shows "\<not> is_space (hd (trim t)) \<and> \<not> is_space (last (trim t))"
proof -
  let ?u = "dropWhile is_space t"
  let ?v = "dropWhile is_space (rev ?u)"
  have v: "?v \<noteq> []" using assms by (simp add: trim_def)
  then have l: "\<not> is_space (hd ?v)" by (rule hd_dropWhile)
  have "last (trim t) = hd ?v" using v by (simp add: trim_def last_rev)
  then have a: "\<not> is_space (last (trim t))" using l by simp
  have u: "?u \<noteq> []"
  proof
    assume e: "?u = []"
    have "?v = []" unfolding e by simp
    with v show False by simp
  qed
  then have hu: "\<not> is_space (hd ?u)" by (rule hd_dropWhile)
  have "last (rev ?u) = hd ?u" using u by (simp add: last_rev)
  have "rev ?u = takeWhile is_space (rev ?u) @ ?v" by simp
  then have "?u = rev ?v @ rev (takeWhile is_space (rev ?u))" by (metis rev_append rev_rev_ident)
  then have "hd ?u = hd (rev ?v)" using v by (metis hd_append2 rev_is_Nil_conv)
  then have "\<not> is_space (hd (trim t))" using hu by (simp add: trim_def)
  with a show ?thesis by simp
qed

section \<open>Answer submission with a blank answer\<close>

text \<open>
  Claim C9. When the answer text is empty or holds only whitespace, \<open>handleAnswerSubmit\<close>
  returns the state it was given (history, total score, index, current question and every
  other variable) and has sent no request to the oracle.
\<close>

theorem blank_answer_is_rejected:
  assumes "\<forall>c\<in>set (answer s). is_space c"
  shows "handleAnswerSubmit JSON_parse feedbackResponse analysisResponse s = (s, [])"
  using assms by (simp add: handleAnswerSubmit_def trim_eq_Nil_iff)

theorem blank_answer_is_rejected_witness:
  "list_all is_space [CHR 0x20, CHR 0x09]
   \<and> handleAnswerSubmit JSON_parse_sample (Resolved (Some ''Score: 9/10'')) Rejected
       (initial_interview\<lparr>interviewing := True, answer := [CHR 0x20, CHR 0x09]\<rparr>)
     = (initial_interview\<lparr>interviewing := True, answer := [CHR 0x20, CHR 0x09]\<rparr>, [])"
proof -
  have h: "\<forall>c\<in>set (answer (initial_interview\<lparr>interviewing := True,
      answer := [CHR 0x20, CHR 0x09]\<rparr>)). is_space c"
    by (simp add: is_space_def)
  from blank_answer_is_rejected [OF h] show ?thesis by (simp add: is_space_def)
qed

section \<open>Running the test cases when the call fails\<close>

text \<open>
  Claim C10. \<open>runTestCases\<close> on non-blank code empties the list of test results before it
  sends its request. When the call is rejected, the reply has no content, or the content
  is not JSON, the list is still empty at the end, whatever it held before: the earlier
  results are gone, and the user gets the alert.
\<close>

theorem run_tests_failure_discards_results:
  assumes "trim (code s) \<noteq> []"
    and "response = Rejected \<or> response = Resolved None
         \<or> (\<exists>content. response = Resolved (Some content) \<and> JSON_parse content = None)"
  shows "testResults (runTestCases_begin s) = JArray []
    \<and> testResults (fst (runTestCases JSON_parse response s)) = JArray []
    \<and> snd (runTestCases JSON_parse response s) =
        [RunTestsCall (question s) (language s) (code s) (testCases s),
         Alert ''Failed to run test cases'']"
proof -
  have b: "testResults (runTestCases_begin s) = JArray []"
    by (simp add: runTestCases_begin_def stopStopwatch_def)
  have "\<exists>e. runTestCases_try JSON_parse response (runTestCases_begin s) = Inl e"
    using assms(2) by (auto simp: runTestCases_try_def)
  then obtain e where "runTestCases_try JSON_parse response (runTestCases_begin s) = Inl e" ..
  then show ?thesis
    using assms(1) b by (simp add: runTestCases_def)
qed

theorem run_tests_failure_discards_results_witness:
  "trim (code (initial_editor\<lparr>code := ''f()'', testResults := JArray [JBool True]\<rparr>)) \<noteq> []
   \<and> JSON_parse_sample ''I cannot do that.'' = None
   \<and> testResults (fst (runTestCases JSON_parse_sample (Resolved (Some ''I cannot do that.''))
        (initial_editor\<lparr>code := ''f()'', testResults := JArray [JBool True]\<rparr>))) = JArray []"
proof -
  have c: "trim (code (initial_editor\<lparr>code := ''f()'', testResults := JArray [JBool True]\<rparr>)) \<noteq> []"
    by (simp add: trim_eq_Nil_iff is_space_def)
  have p: "JSON_parse_sample ''I cannot do that.'' = None"
    by code_simp
  have "Resolved (Some ''I cannot do that.'') = Rejected \<or> Resolved (Some ''I cannot do that.'') = Resolved None
      \<or> (\<exists>content. Resolved (Some ''I cannot do that.'') = Resolved (Some content)
            \<and> JSON_parse_sample content = None)"
    using p by simp
  from run_tests_failure_discards_results [OF c this] show ?thesis using c p by blast
qed

section \<open>Skill extraction\<close>

text \<open>
  Claim C3, as amended. For every reply text the skill list is the list of the trimmed
  comma-separated segments of the text: the segments hold no comma and joined by commas
  they give the text back. The empty text has one (empty) segment, so it gives the list
  with the empty string as its only entry; only a reply without content gives the empty
  list.
\<close>

theorem skills_are_trimmed_segments:
  "extractSkills (Resolved (Some text)) = Inr (map trim (split_chr (CHR '','') text))
   \<and> join_chr (CHR '','') (split_chr (CHR '','') text) = text
   \<and> (\<forall>seg\<in>set (split_chr (CHR '','') text). CHR '','' \<notin> set seg)
   \<and> extractSkills (Resolved (Some [])) = Inr ['''']
   \<and> extractSkills (Resolved None) = Inr []"
  by (simp add: extractSkills_def join_split_chr split_chr_no_sep trim_def)

theorem skills_are_trimmed_segments_witness:
  "extractSkills (Resolved (Some ''a, b ,c'')) = Inr [''a'', ''b'', ''c'']"
proof -
  have e: "map trim (split_chr (CHR '','') ''a, b ,c'') = [''a'', ''b'', ''c'']"
    by code_simp
  from skills_are_trimmed_segments [of "''a, b ,c''"] show ?thesis
    using e by simp
qed

text \<open>
  The claim as stated asks for the empty list on the empty text.
\<close>

theorem empty_skill_text_counterexample:
  "extractSkills (Resolved (Some [])) = Inr [''''] \<and> [''''] \<noteq> ([] :: string list)"
  by (simp add: extractSkills_def trim_def)

section \<open>Resume verification\<close>

text \<open>
  Claim C4, as amended. After an upload whose text could be extracted, the validity flag
  is true exactly when the verification call resolved with a text whose lower case
  contains \<open>yes\<close> and the skill extraction call that follows was not rejected; it is
  false in every other case, and false when the document cannot be read.
\<close>

theorem resume_validity:
  "isResumeValid (handleFileUpload (Pdf extractedText) verificationResponse skillsResponse s)
     = Some ((\<exists>text pre post. verificationResponse = Resolved (Some text)
                \<and> toLowerCase text = pre @ ''yes'' @ post)
             \<and> skillsResponse \<noteq> Rejected)
   \<and> isResumeValid (handleFileUpload Unreadable verificationResponse skillsResponse s)
     = Some False"
proof -
  have "isResume content \<longleftrightarrow> (\<exists>text pre post. content = Some text
      \<and> toLowerCase text = pre @ ''yes'' @ post)" for content
    by (cases content) (simp_all add: isResume_def includes_str_iff)
  then show ?thesis
    by (cases verificationResponse; cases skillsResponse)
      (simp_all add: handleFileUpload_def extractSkills_def)
qed

theorem resume_validity_witness:
  "isResumeValid (handleFileUpload (Pdf ''Curriculum'') (Resolved (Some ''Yes, it is.''))
      (Resolved (Some ''SQL, Python'')) initial_interview) = Some True"
proof -
  have "toLowerCase ''Yes, it is.'' = [] @ ''yes'' @ '', it is.''" by code_simp
  then have "\<exists>text pre post. Resolved (Some ''Yes, it is.'') = Resolved (Some text)
      \<and> toLowerCase text = pre @ ''yes'' @ post" by blast
  with resume_validity [of "''Curriculum''" "Resolved (Some ''Yes, it is.'')"
      "Resolved (Some ''SQL, Python'')" initial_interview]
  show ?thesis by simp
qed

text \<open>
  The claim as stated makes the flag depend on the verification reply alone: here the
  reply contains \<open>yes\<close>, the skill extraction call is rejected, and the flag is false.
\<close>

theorem resume_validity_counterexample:
  "includes_str (toLowerCase ''Yes'') ''yes''
   \<and> isResumeValid (handleFileUpload (Pdf ''Curriculum'') (Resolved (Some ''Yes'')) Rejected
        initial_interview) = Some False"
  by code_simp

section \<open>Question generation in the code challenge\<close>

lemma js_or_three:
  "(\<exists>cs. js_or v (JArray []) = JArray cs \<and> length cs = 3)
     \<longleftrightarrow> (\<exists>cs. v = Some (JArray cs) \<and> length cs = 3)"
proof (cases v)
  case None
  then show ?thesis by (simp add: js_or_def)
next
  case (Some x)
  then show ?thesis
    by (cases "truthy (Some x)") (auto simp: js_or_def)
qed

lemma generateQuestion_try_Inr_iff:
  "(\<exists>s'. generateQuestion_try JSON_parse response s = Inr s')
     \<longleftrightarrow> (\<exists>content result. response = Resolved (Some content) \<and> content \<noteq> []
            \<and> JSON_parse content = Some result \<and> result \<noteq> JNull)"
  by (auto simp: generateQuestion_try_def get_prop_def
      split: completion.splits option.splits if_splits)

text \<open>
  Claim C8, as amended. A generation succeeds when the call resolves with a non-empty
  text that parses to a value other than \<open>null\<close>. Whatever triggers it (mount, a change
  of language, difficulty or topic, the button), it stores the \<open>testCases\<close> value of the
  reply as it is, or the empty list when the reply has none, alongside the new question:
  exactly 3 test cases are stored exactly when the reply carries a list of exactly 3.
\<close>

theorem stored_test_cases:
  assumes "response = Resolved (Some content)" and "content \<noteq> []"
    and "JSON_parse content = Some result" and "result \<noteq> JNull"
  shows "testCases (fire JSON_parse tr response s)
           = js_or (own_prop result ''testCases'') (JArray [])
    \<and> question (fire JSON_parse tr response s)
           = js_or (own_prop result ''question'') (JString ''Couldn't generate question'')
    \<and> ((\<exists>cs. testCases (fire JSON_parse tr response s) = JArray cs \<and> length cs = 3)
         \<longleftrightarrow> (\<exists>cs. own_prop result ''testCases'' = Some (JArray cs) \<and> length cs = 3))"
proof -
  have t: "testCases (fire JSON_parse tr response s)
      = js_or (own_prop result ''testCases'') (JArray [])"
    using assms
    by (simp add: fire_def generateQuestion_def generateQuestion_try_def get_prop_def
        startStopwatch_def)
  have q: "question (fire JSON_parse tr response s)
      = js_or (own_prop result ''question'') (JString ''Couldn't generate question'')"
    using assms
    by (simp add: fire_def generateQuestion_def generateQuestion_try_def get_prop_def
        startStopwatch_def)
  show ?thesis
    unfolding t using q js_or_three [of "own_prop result ''testCases''"] by simp
qed

theorem stored_test_cases_witness:
  "testCases (fire JSON_parse_sample (SetTopic ''tree'') (Resolved (Some question_text))
      initial_editor)
     = JArray [case_value ''[1,2]'' ''[2,1]'', case_value ''[]'' ''[]'', case_value ''[7]'' ''[7]'']"
proof -
  have p: "JSON_parse_sample question_text = Some question_value"
    by code_simp
  have n: "question_text \<noteq> []"
    by code_simp
  have v: "question_value \<noteq> JNull"
    by (simp add: question_value_def)
  from stored_test_cases [of "Resolved (Some question_text)" question_text JSON_parse_sample
      question_value "SetTopic ''tree''" initial_editor, OF refl n p v]
  show ?thesis by (simp add: js_or_def question_value_def)
qed

text \<open>
  The claim as stated promises 3 stored test cases after every successful generation:
  the reply \<open>{}\<close> is accepted and stores none.
\<close>

theorem three_test_cases_counterexample:
  "\<not> isl (generateQuestion_try JSON_parse_sample (Resolved (Some ''{}''))
        (resetStopwatch (initial_editor\<lparr>questionLoading := True\<rparr>)))
   \<and> question (fire JSON_parse_sample Mount (Resolved (Some ''{}'')) initial_editor)
       = JString ''Couldn't generate question''
   \<and> testCases (fire JSON_parse_sample Mount (Resolved (Some ''{}'')) initial_editor)
       = JArray []"
  by code_simp

section \<open>The two regular expressions of the scoring\<close>

lemma regex_search_Some_iff:
  "regex_search m t = Some (pre, r) \<longleftrightarrow>
     (\<exists>suf. t = pre @ suf \<and> m suf = Some r \<and> (\<forall>i<length pre. m (drop i t) = None))"
proof (induction t arbitrary: pre)
  case Nil
  then show ?case by auto
next
  case (Cons c cs)
  show ?case
  proof (cases "m (c # cs)")
    case (Some r')
    show ?thesis
    proof
      assume "regex_search m (c # cs) = Some (pre, r)"
      then have "pre = []" "r' = r" using Some by auto
      then show "\<exists>suf. c # cs = pre @ suf \<and> m suf = Some r \<and> (\<forall>i<length pre. m (drop i (c # cs)) = None)"
        using Some by simp
    next
      assume "\<exists>suf. c # cs = pre @ suf \<and> m suf = Some r \<and> (\<forall>i<length pre. m (drop i (c # cs)) = None)"
      then obtain suf where s: "c # cs = pre @ suf" "m suf = Some r"
        "\<forall>i<length pre. m (drop i (c # cs)) = None" by blast
      have "pre = []"
      proof (rule ccontr)
        assume "pre \<noteq> []"
        then have "m (drop 0 (c # cs)) = None" using s(3) by blast
        then show False using Some by simp
      qed
      moreover from this s(1) have "suf = c # cs" by simp
      ultimately show "regex_search m (c # cs) = Some (pre, r)" using s(2) by simp
    qed
  next
    case None
    show ?thesis
    proof
      assume "regex_search m (c # cs) = Some (pre, r)"
      then obtain pre' where p: "regex_search m cs = Some (pre', r)" "pre = c # pre'"
        using None by (auto split: prod.splits)
      then obtain suf where s: "cs = pre' @ suf" "m suf = Some r"
        "\<forall>i<length pre'. m (drop i cs) = None" using Cons.IH by blast
      have "\<forall>i<length pre. m (drop i (c # cs)) = None"
      proof (intro allI impI)
        fix i assume "i < length pre"
        then show "m (drop i (c # cs)) = None"
          using None s(3) p(2) by (cases i) auto
      qed
      then show "\<exists>suf. c # cs = pre @ suf \<and> m suf = Some r \<and> (\<forall>i<length pre. m (drop i (c # cs)) = None)"
        using s p by auto
    next
      assume "\<exists>suf. c # cs = pre @ suf \<and> m suf = Some r \<and> (\<forall>i<length pre. m (drop i (c # cs)) = None)"
      then obtain suf where s: "c # cs = pre @ suf" "m suf = Some r"
        "\<forall>i<length pre. m (drop i (c # cs)) = None" by blast
      have "pre \<noteq> []" using s None by auto
      then obtain pre' where p: "pre = c # pre'" "cs = pre' @ suf"
        using s(1) by (cases pre) auto
      have "\<forall>i<length pre'. m (drop i cs) = None"
      proof (intro allI impI)
        fix i assume "i < length pre'"
        then have "Suc i < length pre" using p by simp
        then have "m (drop (Suc i) (c # cs)) = None" using s(3) by blast
        then show "m (drop i cs) = None" by simp
      qed
      then have "regex_search m cs = Some (pre', r)" using Cons.IH p s by blast
      then show "regex_search m (c # cs) = Some (pre, r)" using None p by simp
    qed
  qed
qed

lemma regex_search_None_iff:
  "regex_search m t = None \<longleftrightarrow> (\<forall>i\<le>length t. m (drop i t) = None)"
proof (induction t)
  case Nil
  then show ?case by simp
next
  case (Cons c cs)
  show ?case
  proof
    assume n: "regex_search m (c # cs) = None"
    then have h: "m (c # cs) = None" by (auto split: option.splits)
    with n have "regex_search m cs = None" by simp
    then have t: "\<forall>i\<le>length cs. m (drop i cs) = None" using Cons.IH by blast
    show "\<forall>i\<le>length (c # cs). m (drop i (c # cs)) = None"
    proof (intro allI impI)
      fix i assume "i \<le> length (c # cs)"
      then show "m (drop i (c # cs)) = None" using h t by (cases i) auto
    qed
  next
    assume a: "\<forall>i\<le>length (c # cs). m (drop i (c # cs)) = None"
    then have h: "m (c # cs) = None" by (metis drop0 le0)
    have "\<forall>i\<le>length cs. m (drop i cs) = None"
    proof (intro allI impI)
      fix i assume "i \<le> length cs"
      then have "m (drop (Suc i) (c # cs)) = None" using a by (metis Suc_le_mono length_Cons)
      then show "m (drop i cs) = None" by simp
    qed
    then have "regex_search m cs = None" using Cons.IH by blast
    then show "regex_search m (c # cs) = None" using h by simp
  qed
qed

lemma regex_search_map_option:
  "regex_search (\<lambda>t. map_option f (m t)) t
     = map_option (\<lambda>(pre, r). (pre, f r)) (regex_search m t)"
  by (induction t) (auto split: option.splits simp: option.map_comp comp_def case_prod_unfold)

lemma toLowerCase_length: "toLowerCase kw = w \<Longrightarrow> length kw = length w"
  by (auto simp: toLowerCase_def)

lemma not_digit_slash: "\<not> is_digit (CHR ''/'')"
  by (simp add: is_digit_def)

lemma scoreMatch_at_Some_iff:
  "scoreMatch_at t = Some (ds, post) \<longleftrightarrow>
     (\<exists>kw. t = kw @ ds @ ''/10'' @ post \<and> toLowerCase kw = ''score: ''
           \<and> ds \<noteq> [] \<and> list_all is_digit ds)"
proof
  assume a: "scoreMatch_at t = Some (ds, post)"
  then have h: "toLowerCase (take 7 t) = ''score: ''"
    by (auto simp: scoreMatch_at_def score_head_def split: if_splits option.splits)
  let ?r = "drop 7 t"
  from a h have d: "ds = takeWhile is_digit ?r" "ds \<noteq> []"
    "prefix ''/10'' (dropWhile is_digit ?r)" "post = drop 3 (dropWhile is_digit ?r)"
    by (auto simp: scoreMatch_at_def score_head_def Let_def split: if_splits)
  from d(3) obtain zs where z: "dropWhile is_digit ?r = ''/10'' @ zs"
    by (auto simp: prefix_def)
  then have "post = zs" using d(4) by simp
  then have "?r = ds @ ''/10'' @ post" using z d(1)
    by (metis takeWhile_dropWhile_id)
  then have "t = take 7 t @ ds @ ''/10'' @ post" by (metis append_take_drop_id)
  moreover have "list_all is_digit ds" using d(1)
    by (simp add: list_all_iff) (meson set_takeWhileD)
  ultimately show "\<exists>kw. t = kw @ ds @ ''/10'' @ post \<and> toLowerCase kw = ''score: ''
           \<and> ds \<noteq> [] \<and> list_all is_digit ds" using h d(2) by blast
next
  assume "\<exists>kw. t = kw @ ds @ ''/10'' @ post \<and> toLowerCase kw = ''score: ''
           \<and> ds \<noteq> [] \<and> list_all is_digit ds"
  then obtain kw where k: "t = kw @ ds @ ''/10'' @ post" "toLowerCase kw = ''score: ''"
    "ds \<noteq> []" "list_all is_digit ds" by blast
  have l: "length kw = 7" using toLowerCase_length [OF k(2)] by simp
  then have tk: "take 7 t = kw" "drop 7 t = ds @ ''/10'' @ post" using k(1) by simp_all
  have tw: "takeWhile is_digit (ds @ ''/10'' @ post) = ds"
    using k(4) not_digit_slash by (simp add: list_all_iff takeWhile_append2)
  have dw: "dropWhile is_digit (ds @ ''/10'' @ post) = ''/10'' @ post"
    using k(4) not_digit_slash by (simp add: list_all_iff dropWhile_append2)
  show "scoreMatch_at t = Some (ds, post)"
    using k(2,3) tk tw dw by (simp add: scoreMatch_at_def score_head_def)
qed

lemma scoreReplace_at_eq:
  "scoreReplace_at t
     = map_option (\<lambda>(ds, r). dropWhile is_space (if prefix ''.'' r then drop 1 r else r))
         (scoreMatch_at t)"
  by (simp add: scoreReplace_at_def split: option.splits)

lemma first_score_pattern_search:
  assumes "first_score_pattern text pre kw ds post"
  shows "regex_search scoreMatch_at text = Some (pre, ds, post)"
proof -
  from assms have p: "text = pre @ kw @ ds @ ''/10'' @ post" "toLowerCase kw = ''score: ''"
    "ds \<noteq> []" "list_all is_digit ds"
    by (auto simp: first_score_pattern_def score_pattern_def)
  then have m: "scoreMatch_at (kw @ ds @ ''/10'' @ post) = Some (ds, post)"
    by (subst scoreMatch_at_Some_iff) blast
  have "\<forall>i<length pre. scoreMatch_at (drop i text) = None"
  proof (intro allI impI)
    fix i assume i: "i < length pre"
    show "scoreMatch_at (drop i text) = None"
    proof (rule ccontr)
      assume "scoreMatch_at (drop i text) \<noteq> None"
      then obtain ds' post' where "scoreMatch_at (drop i text) = Some (ds', post')" by auto
      then have "\<exists>kw'. drop i text = kw' @ ds' @ ''/10'' @ post'
          \<and> toLowerCase kw' = ''score: '' \<and> ds' \<noteq> [] \<and> list_all is_digit ds'"
        by (simp only: scoreMatch_at_Some_iff)
      then obtain kw' where k: "drop i text = kw' @ ds' @ ''/10'' @ post'"
        "toLowerCase kw' = ''score: ''" "ds' \<noteq> []" "list_all is_digit ds'"
        by blast
      have "text = take i text @ kw' @ ds' @ ''/10'' @ post'"
        using k(1) by (metis append_take_drop_id)
      then have "score_pattern text (take i text) kw' ds' post'"
        using k by (simp add: score_pattern_def)
      then have "length pre \<le> length (take i text)"
        using assms unfolding first_score_pattern_def by blast
      then show False using i by simp
    qed
  qed
  with p(1) m have "\<exists>suf. text = pre @ suf \<and> scoreMatch_at suf = Some (ds, post)
      \<and> (\<forall>i<length pre. scoreMatch_at (drop i text) = None)" by blast
  then show ?thesis by (simp only: regex_search_Some_iff)
qed

lemma no_score_pattern_search:
  "regex_search scoreMatch_at text = None \<longleftrightarrow> (\<nexists>pre kw ds post. score_pattern text pre kw ds post)"
proof
  assume n: "regex_search scoreMatch_at text = None"
  show "\<nexists>pre kw ds post. score_pattern text pre kw ds post"
  proof
    assume "\<exists>pre kw ds post. score_pattern text pre kw ds post"
    then obtain pre kw ds post where p: "score_pattern text pre kw ds post" by blast
    then have "scoreMatch_at (kw @ ds @ ''/10'' @ post) = Some (ds, post)"
      by (subst scoreMatch_at_Some_iff) (auto simp: score_pattern_def)
    moreover have "drop (length pre) text = kw @ ds @ ''/10'' @ post"
      and "length pre \<le> length text"
      using p by (auto simp: score_pattern_def)
    moreover have "\<forall>i\<le>length text. scoreMatch_at (drop i text) = None"
      using n by (simp only: regex_search_None_iff)
    then have "scoreMatch_at (drop (length pre) text) = None"
      using \<open>length pre \<le> length text\<close> by blast
    ultimately show False by simp
  qed
next
  assume a: "\<nexists>pre kw ds post. score_pattern text pre kw ds post"
  have "\<forall>i\<le>length text. scoreMatch_at (drop i text) = None"
  proof (intro allI impI)
    fix i
    show "scoreMatch_at (drop i text) = None"
    proof (rule ccontr)
      assume "scoreMatch_at (drop i text) \<noteq> None"
      then obtain ds' post' where "scoreMatch_at (drop i text) = Some (ds', post')" by auto
      then have "\<exists>kw'. drop i text = kw' @ ds' @ ''/10'' @ post'
          \<and> toLowerCase kw' = ''score: '' \<and> ds' \<noteq> [] \<and> list_all is_digit ds'"
        by (simp only: scoreMatch_at_Some_iff)
      then obtain kw' where k: "drop i text = kw' @ ds' @ ''/10'' @ post'"
        "toLowerCase kw' = ''score: ''" "ds' \<noteq> []" "list_all is_digit ds'"
        by blast
      have "text = take i text @ kw' @ ds' @ ''/10'' @ post'"
        using k(1) by (metis append_take_drop_id)
      then have "score_pattern text (take i text) kw' ds' post'"
        using k by (simp add: score_pattern_def)
      then show False using a by blast
    qed
  qed
  then show "regex_search scoreMatch_at text = None" by (simp only: regex_search_None_iff)
qed

lemma search_gives_first_score_pattern:
  assumes "regex_search scoreMatch_at text = Some (pre, ds, post)"
  shows "\<exists>kw. first_score_pattern text pre kw ds post"
proof -
  from assms have "\<exists>suf. text = pre @ suf \<and> scoreMatch_at suf = Some (ds, post)
      \<and> (\<forall>i<length pre. scoreMatch_at (drop i text) = None)"
    by (simp only: regex_search_Some_iff)
  then obtain suf where s: "text = pre @ suf" "scoreMatch_at suf = Some (ds, post)"
    "\<forall>i<length pre. scoreMatch_at (drop i text) = None"
    by blast
  from s(2) have "\<exists>kw. suf = kw @ ds @ ''/10'' @ post \<and> toLowerCase kw = ''score: ''
      \<and> ds \<noteq> [] \<and> list_all is_digit ds"
    by (simp only: scoreMatch_at_Some_iff)
  then obtain kw where k: "suf = kw @ ds @ ''/10'' @ post" "toLowerCase kw = ''score: ''"
    "ds \<noteq> []" "list_all is_digit ds"
    by blast
  have sp: "score_pattern text pre kw ds post" using s(1) k by (simp add: score_pattern_def)
  have "length pre \<le> length pre'" if q: "score_pattern text pre' kw' ds' post'"
    for pre' kw' ds' post'
  proof (rule ccontr)
    assume "\<not> length pre \<le> length pre'"
    then have "length pre' < length pre" by simp
    then have "scoreMatch_at (drop (length pre') text) = None" using s(3) by blast
    moreover have "drop (length pre') text = kw' @ ds' @ ''/10'' @ post'"
      using q by (simp add: score_pattern_def)
    moreover have "scoreMatch_at (kw' @ ds' @ ''/10'' @ post') = Some (ds', post')"
      using q by (subst scoreMatch_at_Some_iff) (auto simp: score_pattern_def)
    ultimately show False by simp
  qed
  with sp have "first_score_pattern text pre kw ds post"
    by (auto simp: first_score_pattern_def)
  then show ?thesis ..
qed

section \<open>Answer scoring\<close>

lemma handleAnswerSubmit_history:
  assumes "trim (answer s) \<noteq> []"
  shows "history (fst (handleAnswerSubmit JSON_parse (Resolved content) analysisResponse s))
    = history s @
        [\<lparr>entry_question = currentQuestion s, entry_answer = answer s,
          entry_feedback = feedback (feedbackText content),
          entry_score = score (feedbackText content)\<rparr>]"
  using assms by (simp add: handleAnswerSubmit_def Let_def)

lemma regex_search_scoreReplace_at:
  "regex_search scoreReplace_at ft
     = map_option
         (\<lambda>(pre, ds, r). (pre, dropWhile is_space (if prefix ''.'' r then drop 1 r else r)))
         (regex_search scoreMatch_at ft)"
proof -
  have eq: "scoreReplace_at = (\<lambda>t. map_option
      (\<lambda>(ds, r). dropWhile is_space (if prefix ''.'' r then drop 1 r else r)) (scoreMatch_at t))"
    by (rule ext) (rule scoreReplace_at_eq)
  show ?thesis
    unfolding eq regex_search_map_option by (simp add: case_prod_unfold)
qed

lemma score_first_pattern:
  assumes "first_score_pattern ft pre kw ds post"
  shows "score ft = mk_number (int (decimal ds))"
    and "feedback ft
      = trim (pre @ dropWhile is_space (if prefix ''.'' post then drop 1 post else post))"
proof -
  have m: "regex_search scoreMatch_at ft = Some (pre, ds, post)"
    using assms by (rule first_score_pattern_search)
  then show "score ft = mk_number (int (decimal ds))"
    by (simp add: score_def scoreMatch_def parseInt_def)
  have "regex_search scoreReplace_at ft
    = Some (pre, dropWhile is_space (if prefix ''.'' post then drop 1 post else post))"
    unfolding regex_search_scoreReplace_at m by simp
  then show "feedback ft
      = trim (pre @ dropWhile is_space (if prefix ''.'' post then drop 1 post else post))"
    by (simp add: feedback_def scoreReplace_def)
qed

lemma score_no_pattern:
  assumes "\<nexists>pre kw ds post. score_pattern ft pre kw ds post"
  shows "score ft = Exact 5" and "feedback ft = trim ft"
proof -
  have m: "regex_search scoreMatch_at ft = None"
    using assms by (simp only: no_score_pattern_search not_False_eq_True)
  then show "score ft = Exact 5"
    by (simp add: score_def scoreMatch_def)
  have "regex_search scoreReplace_at ft = None"
    unfolding regex_search_scoreReplace_at m by simp
  then show "feedback ft = trim ft"
    by (simp add: feedback_def scoreReplace_def)
qed

lemma pattern_or_none:
  "(\<exists>pre kw ds post. first_score_pattern ft pre kw ds post)
   \<or> (\<nexists>pre kw ds post. score_pattern ft pre kw ds post)"
proof (cases "regex_search scoreMatch_at ft")
  case None
  then show ?thesis by (simp only: no_score_pattern_search) simp
next
  case (Some r)
  then obtain pre ds post where "regex_search scoreMatch_at ft = Some (pre, ds, post)"
    by (cases r) auto
  then show ?thesis using search_gives_first_score_pattern by blast
qed

lemma mk_number_nat_cases:
  "mk_number (int n) = Inexact \<or> (\<exists>k\<ge>0. mk_number (int n) = Exact k)"
  by (simp add: mk_number_def)

lemma mk_number_in_range:
  "(\<exists>k. mk_number (int n) = Exact k \<and> 1 \<le> k \<and> k \<le> 10) \<longleftrightarrow> 1 \<le> n \<and> n \<le> 10"
  by (auto simp: mk_number_def)

lemma handleAnswerSubmit_no_record:
  "history (fst (handleAnswerSubmit JSON_parse Rejected analysisResponse s)) = history s"
  by (simp add: handleAnswerSubmit_def)





text \<open>
  In general: when the reply has no content or an empty one, the record appended for a
  non-blank answer has the score 5 and the feedback \<open>No feedback available.\<close>.
\<close>

lemma empty_reply_is_replaced:
  assumes "trim (answer s) \<noteq> []" and "content = None \<or> content = Some []"
  shows "history (fst (handleAnswerSubmit JSON_parse (Resolved content) analysisResponse s))
    = history s @
        [\<lparr>entry_question = currentQuestion s, entry_answer = answer s,
          entry_feedback = ''No feedback available.'', entry_score = Exact 5\<rparr>]"
proof -
  have ft: "feedbackText content = ''No feedback available.''"
    using assms(2) by (auto simp: feedbackText_def)
  have sc: "score ''No feedback available.'' = Exact 5" by code_simp
  have fb: "feedback ''No feedback available.'' = ''No feedback available.''" by code_simp
  show ?thesis
    using handleAnswerSubmit_history [OF assms(1), of JSON_parse content analysisResponse]
    by (simp only: ft sc fb)
qed

text \<open>
  The example of the specification, \<open>Score: 7/10. Feedback: Good job.\<close>: the score is 7
  and the feedback keeps the word \<open>Feedback:\<close>, which is not part of what the handler
  removes.
\<close>

lemma scored_example:
  "score ''Score: 7/10. Feedback: Good job.'' = Exact 7
   \<and> feedback ''Score: 7/10. Feedback: Good job.'' = ''Feedback: Good job.''"
  by code_simp

text \<open>
  Claim C6, as amended. Every record appended to the history carries the score 5 when the
  reply (after the replacement of an empty reply) holds no score pattern, and otherwise
  the integer of the first pattern as a number. The score is never negative, and it lies
  in the interval from 1 to 10 exactly when that integer does: the handler does not clamp
  it.
\<close>

theorem recorded_score_range:
  assumes "trim (answer s) \<noteq> []"
  shows "\<exists>e. history (fst (handleAnswerSubmit JSON_parse (Resolved content) analysisResponse s))
              = history s @ [e]
    \<and> ((\<nexists>pre kw ds post. score_pattern (feedbackText content) pre kw ds post) \<longrightarrow>
          entry_score e = Exact 5)
    \<and> (\<forall>pre kw ds post. first_score_pattern (feedbackText content) pre kw ds post \<longrightarrow>
          entry_score e = mk_number (int (decimal ds))
          \<and> ((\<exists>k. entry_score e = Exact k \<and> 1 \<le> k \<and> k \<le> 10)
               \<longleftrightarrow> 1 \<le> decimal ds \<and> decimal ds \<le> 10))
    \<and> (entry_score e = Inexact \<or> (\<exists>k\<ge>0. entry_score e = Exact k))"
proof -
  let ?ft = "feedbackText content"
  let ?e = "\<lparr>entry_question = currentQuestion s, entry_answer = answer s,
          entry_feedback = feedback ?ft, entry_score = score ?ft\<rparr>"
  have h: "history (fst (handleAnswerSubmit JSON_parse (Resolved content) analysisResponse s))
      = history s @ [?e]"
    using assms by (rule handleAnswerSubmit_history)
  have a: "(\<nexists>pre kw ds post. score_pattern ?ft pre kw ds post) \<longrightarrow> entry_score ?e = Exact 5"
    using score_no_pattern(1) by simp
  have b: "\<forall>pre kw ds post. first_score_pattern ?ft pre kw ds post \<longrightarrow>
          entry_score ?e = mk_number (int (decimal ds))
          \<and> ((\<exists>k. entry_score ?e = Exact k \<and> 1 \<le> k \<and> k \<le> 10)
               \<longleftrightarrow> 1 \<le> decimal ds \<and> decimal ds \<le> 10)"
  proof (intro allI impI)
    fix pre kw ds post
    assume "first_score_pattern ?ft pre kw ds post"
    then have "score ?ft = mk_number (int (decimal ds))" by (rule score_first_pattern(1))
    then show "entry_score ?e = mk_number (int (decimal ds))
          \<and> ((\<exists>k. entry_score ?e = Exact k \<and> 1 \<le> k \<and> k \<le> 10)
               \<longleftrightarrow> 1 \<le> decimal ds \<and> decimal ds \<le> 10)"
      using mk_number_in_range [of "decimal ds"] by simp
  qed
  have c: "entry_score ?e = Inexact \<or> (\<exists>k\<ge>0. entry_score ?e = Exact k)"
  proof -
    from pattern_or_none [of ?ft] show ?thesis
    proof
      assume "\<exists>pre kw ds post. first_score_pattern ?ft pre kw ds post"
      then obtain pre kw ds post where "first_score_pattern ?ft pre kw ds post" by blast
      then have "score ?ft = mk_number (int (decimal ds))" by (rule score_first_pattern(1))
      then show ?thesis using mk_number_nat_cases [of "decimal ds"] by simp
    next
      assume "\<nexists>pre kw ds post. score_pattern ?ft pre kw ds post"
      then have "score ?ft = Exact 5" by (rule score_no_pattern(1))
      then show ?thesis by simp
    qed
  qed
  from h a b c show ?thesis by blast
qed

theorem recorded_score_range_witness:
  "map entry_score (history (fst (handleAnswerSubmit JSON_parse_sample
      (Resolved (Some ''Good answer. score: 15/10'')) Rejected answering))) = [Exact 15]"
proof -
  let ?text = "''Good answer. score: 15/10''"
  have a: "trim (answer answering) \<noteq> []" by code_simp
  have h0: "history answering = []" by code_simp
  have ft: "feedbackText (Some ?text) = ?text" by (simp add: feedbackText_def)
  have m: "regex_search scoreMatch_at ?text = Some (''Good answer. '', ''15'', [])"
    by code_simp
  from search_gives_first_score_pattern [OF m]
  obtain kw where fp: "first_score_pattern ?text ''Good answer. '' kw ''15'' []" ..
  have v: "mk_number (int (decimal ''15'')) = Exact 15" by code_simp
  from recorded_score_range [OF a, of JSON_parse_sample "Some ?text" Rejected]
  obtain e where e: "history (fst (handleAnswerSubmit JSON_parse_sample
        (Resolved (Some ?text)) Rejected answering)) = history answering @ [e]"
    and p: "\<forall>pre kw ds post. first_score_pattern (feedbackText (Some ?text)) pre kw ds post \<longrightarrow>
          entry_score e = mk_number (int (decimal ds))
          \<and> ((\<exists>k. entry_score e = Exact k \<and> 1 \<le> k \<and> k \<le> 10)
               \<longleftrightarrow> 1 \<le> decimal ds \<and> decimal ds \<le> 10)"
    by blast
  from p fp have "entry_score e = mk_number (int (decimal ''15''))"
    unfolding ft by blast
  then have "entry_score e = Exact 15" using v by simp
  then show ?thesis using e h0 by simp
qed

text \<open>
  The claim as stated bounds every recorded score by 1 and 10. The prompt itself asks the
  oracle for 0 marks on a wrong answer, and \<open>Score: 0/10\<close> is recorded as 0.
\<close>

theorem score_zero_counterexample:
  "map entry_score (history (fst (handleAnswerSubmit JSON_parse_sample
      (Resolved (Some ''Score: 0/10. Feedback: Wrong.'')) Rejected answering))) = [Exact 0]
   \<and> \<not> (1 \<le> (0::int))"
  by code_simp

section \<open>Question generation in the interview\<close>




lemma strip_marker_other: "\<not> numbered_line q \<Longrightarrow> strip_marker q = q"
  by (auto simp: strip_marker_def numbered_line_def Let_def)







lemma startInterview_questions:
  assumes "skills s \<noteq> []" and "generateQuestions response = Inr qs"
  shows "questions (startInterview response s) = qs"
  using assms by (simp add: startInterview_def Let_def)

text \<open>
  A marker is removed only at the very start of a line: a line indented before its number
  is not a numbered line, and it keeps the marker.
\<close>

lemma indented_marker_is_kept:
  "\<not> numbered_line '' 2. What is a join?''
   \<and> trim (strip_marker '' 2. What is a join?'') = ''2. What is a join?''"
  by code_simp

section \<open>Validation of the result analysis\<close>

lemma validatedList_rule: "field_rule v dflt (validatedList v dflt)"
proof (cases v)
  case None
  then show ?thesis by (simp add: field_rule_def validatedList_def)
next
  case (Some x)
  show ?thesis
  proof (cases x)
    case (JArray xs)
    have "3 \<le> length xs \<Longrightarrow> [xs ! 0, xs ! 1, xs ! 2] = take 3 xs"
      by (cases xs; cases "tl xs"; cases "tl (tl xs)") auto
    then show ?thesis using Some JArray
      by (auto simp: field_rule_def validatedList_def)
  qed (simp_all add: Some field_rule_def validatedList_def)
qed

lemma validatedList_length:
  "length dflt = 3 \<Longrightarrow> length (validatedList v dflt) = 3"
  by (auto simp: validatedList_def split: option.splits json.splits)

lemma validatedPerformance_in:
  "validatedPerformance v = Inr p \<Longrightarrow> p \<in> set performances"
  by (cases v rule: validatedPerformance.cases)
    (auto simp: defaultAnalysis_def performances_def split: if_splits)

lemma analyzeResults_cases:
  "analyzeResults JSON_parse response = fallbackAnalysis
   \<or> (\<exists>parsed r. validatedAnalysis parsed = Inr r \<and> analyzeResults JSON_parse response = r)"
  by (auto simp: analyzeResults_def split: completion.splits option.splits sum.splits)

lemma validatedAnalysis_shape:
  assumes "validatedAnalysis parsed = Inr r"
  shows "overallPerformance r \<in> set performances \<and> length (strengths r) = 3
    \<and> length (weaknesses r) = 3 \<and> length (improvementSuggestions r) = 3"
proof -
  from assms obtain v p where "validatedPerformance v = Inr p"
    and r: "r = \<lparr>overallPerformance = p,
        strengths = validatedList (own_prop parsed ''strengths'') (strengths defaultAnalysis),
        weaknesses = validatedList (own_prop parsed ''weaknesses'') (weaknesses defaultAnalysis),
        improvementSuggestions =
          validatedList (own_prop parsed ''improvementSuggestions'')
            (improvementSuggestions defaultAnalysis)\<rparr>"
    by (auto simp: validatedAnalysis_def split: sum.splits)
  then have "p \<in> set performances" by (simp add: validatedPerformance_in)
  then show ?thesis unfolding r
    by (simp add: validatedList_length defaultAnalysis_def)
qed

lemma analyzeResults_shape:
  "overallPerformance (analyzeResults JSON_parse response) \<in> set performances
   \<and> length (strengths (analyzeResults JSON_parse response)) = 3
   \<and> length (weaknesses (analyzeResults JSON_parse response)) = 3
   \<and> length (improvementSuggestions (analyzeResults JSON_parse response)) = 3"
proof -
  from analyzeResults_cases [of JSON_parse response] show ?thesis
  proof
    assume "analyzeResults JSON_parse response = fallbackAnalysis"
    then show ?thesis by (simp add: fallbackAnalysis_def performances_def)
  next
    assume "\<exists>parsed r. validatedAnalysis parsed = Inr r \<and> analyzeResults JSON_parse response = r"
    then show ?thesis using validatedAnalysis_shape by blast
  qed
qed

text \<open>
  Claim C1, as amended. Let the reply text (or \<open>{}\<close> in place of an empty or missing one)
  parse as JSON to a value other than \<open>null\<close> whose \<open>overallPerformance\<close> is absent,
  \<open>null\<close> or a string. Then the overall performance of the result is the lower-cased
  string when that is one of excellent, good, average, needs improvement, and
  \<open>average\<close> otherwise; and each of the three lists is the first 3 entries of its field
  when the field is a list with at least 3 entries, and the default list of that field
  otherwise, each field by itself. When the call is rejected or the text is not JSON, the
  result is the fixed object of the \<open>catch\<close> block, whose first two lists start with
  \<open>Could not analyze\<close>. In every case the overall performance is one of the four values
  and each list has 3 entries.
\<close>

theorem validated_result_analysis:
  "(JSON_parse (rawAnalysis content) = Some parsed \<and> parsed \<noteq> JNull
     \<and> (own_prop parsed ''overallPerformance'' = None
          \<or> own_prop parsed ''overallPerformance'' = Some JNull
          \<or> (\<exists>v. own_prop parsed ''overallPerformance'' = Some (JString v)))
    \<longrightarrow>
      (\<forall>v. own_prop parsed ''overallPerformance'' = Some (JString v)
            \<and> toLowerCase v \<in> {''excellent'', ''good'', ''average'', ''needs improvement''}
          \<longrightarrow> overallPerformance (analyzeResults JSON_parse (Resolved content)) = toLowerCase v)
      \<and> ((\<nexists>v. own_prop parsed ''overallPerformance'' = Some (JString v)
            \<and> toLowerCase v \<in> {''excellent'', ''good'', ''average'', ''needs improvement''})
          \<longrightarrow> overallPerformance (analyzeResults JSON_parse (Resolved content)) = ''average'')
      \<and> field_rule (own_prop parsed ''strengths'')
           [JString ''No strengths identified'', JString ''N/A'', JString ''N/A'']
           (strengths (analyzeResults JSON_parse (Resolved content)))
      \<and> field_rule (own_prop parsed ''weaknesses'')
           [JString ''No weaknesses identified'', JString ''N/A'', JString ''N/A'']
           (weaknesses (analyzeResults JSON_parse (Resolved content)))
      \<and> field_rule (own_prop parsed ''improvementSuggestions'')
           [JString ''Review your answers'', JString ''Practice more'',
            JString ''Study relevant materials'']
           (improvementSuggestions (analyzeResults JSON_parse (Resolved content))))
   \<and> (response = Rejected
        \<or> (\<exists>content. response = Resolved content \<and> JSON_parse (rawAnalysis content) = None)
      \<longrightarrow> analyzeResults JSON_parse response =
          \<lparr>overallPerformance = ''average'',
           strengths = [JString ''Could not analyze'', JString ''N/A'', JString ''N/A''],
           weaknesses = [JString ''Could not analyze'', JString ''N/A'', JString ''N/A''],
           improvementSuggestions =
             [JString ''Review your answers'', JString ''Practice more'',
              JString ''Study relevant materials'']\<rparr>)
   \<and> overallPerformance (analyzeResults JSON_parse response)
        \<in> {''excellent'', ''good'', ''average'', ''needs improvement''}
   \<and> length (strengths (analyzeResults JSON_parse response)) = 3
   \<and> length (weaknesses (analyzeResults JSON_parse response)) = 3
   \<and> length (improvementSuggestions (analyzeResults JSON_parse response)) = 3"
  (is "(?H \<longrightarrow> ?A) \<and> (?F \<longrightarrow> ?B) \<and> ?C")
proof (intro conjI)
  show "?H \<longrightarrow> ?A"
  proof
    assume h: ?H
    let ?v = "own_prop parsed ''overallPerformance''"
    from h obtain p where p: "validatedPerformance ?v = Inr p"
      by (auto simp: defaultAnalysis_def)
    have pv: "(\<forall>v. ?v = Some (JString v)
            \<and> toLowerCase v \<in> {''excellent'', ''good'', ''average'', ''needs improvement''}
          \<longrightarrow> p = toLowerCase v)
      \<and> ((\<nexists>v. ?v = Some (JString v)
            \<and> toLowerCase v \<in> {''excellent'', ''good'', ''average'', ''needs improvement''})
          \<longrightarrow> p = ''average'')"
      using h p by (auto simp: defaultAnalysis_def performances_def)
    have r: "analyzeResults JSON_parse (Resolved content) =
      \<lparr>overallPerformance = p,
        strengths = validatedList (own_prop parsed ''strengths'') (strengths defaultAnalysis),
        weaknesses = validatedList (own_prop parsed ''weaknesses'') (weaknesses defaultAnalysis),
        improvementSuggestions =
          validatedList (own_prop parsed ''improvementSuggestions'')
            (improvementSuggestions defaultAnalysis)\<rparr>"
      using h p by (simp add: analyzeResults_def validatedAnalysis_def get_prop_def)
    show ?A
      unfolding r using pv validatedList_rule
      by (simp add: defaultAnalysis_def)
  qed
  show "?F \<longrightarrow> ?B"
    by (auto simp: analyzeResults_def fallbackAnalysis_def)
  show "overallPerformance (analyzeResults JSON_parse response)
        \<in> {''excellent'', ''good'', ''average'', ''needs improvement''}"
    using analyzeResults_shape [of JSON_parse response] by (simp add: performances_def)
  show "length (strengths (analyzeResults JSON_parse response)) = 3"
    using analyzeResults_shape by blast
  show "length (weaknesses (analyzeResults JSON_parse response)) = 3"
    using analyzeResults_shape by blast
  show "length (improvementSuggestions (analyzeResults JSON_parse response)) = 3"
    using analyzeResults_shape by blast
qed


theorem validated_result_analysis_witness:
  "overallPerformance (analyzeResults JSON_parse_sample (Resolved (Some analysis_text))) = ''good''
   \<and> strengths (analyzeResults JSON_parse_sample (Resolved (Some analysis_text)))
       = [JString ''a'', JString ''b'', JString ''c'']
   \<and> weaknesses (analyzeResults JSON_parse_sample (Resolved (Some analysis_text)))
       = [JString ''No weaknesses identified'', JString ''N/A'', JString ''N/A'']"
proof -
  let ?r = "analyzeResults JSON_parse_sample (Resolved (Some analysis_text))"
  have p: "JSON_parse_sample (rawAnalysis (Some analysis_text)) = Some analysis_value"
    by code_simp
  have n: "analysis_value \<noteq> JNull" by (simp add: analysis_value_def)
  have o: "own_prop analysis_value ''overallPerformance'' = Some (JString ''GOOD'')"
    by (simp add: analysis_value_def)
  have s: "own_prop analysis_value ''strengths''
      = Some (JArray [JString ''a'', JString ''b'', JString ''c'', JString ''d''])"
    by (simp add: analysis_value_def)
  have w: "own_prop analysis_value ''weaknesses'' = Some (JArray [JString ''x'', JString ''y''])"
    by (simp add: analysis_value_def)
  have l: "toLowerCase ''GOOD'' = ''good''" by code_simp
  from validated_result_analysis [of JSON_parse_sample "Some analysis_text" analysis_value
      "Resolved (Some analysis_text)"] p n o
  have a: "\<forall>v. own_prop analysis_value ''overallPerformance'' = Some (JString v)
            \<and> toLowerCase v \<in> {''excellent'', ''good'', ''average'', ''needs improvement''}
          \<longrightarrow> overallPerformance ?r = toLowerCase v"
    and b: "field_rule (own_prop analysis_value ''strengths'')
           [JString ''No strengths identified'', JString ''N/A'', JString ''N/A'']
           (strengths ?r)"
    and c: "field_rule (own_prop analysis_value ''weaknesses'')
           [JString ''No weaknesses identified'', JString ''N/A'', JString ''N/A'']
           (weaknesses ?r)"
    by blast+
  from a o l have 1: "overallPerformance ?r = ''good''" by simp
  from b have 2: "strengths ?r = [JString ''a'', JString ''b'', JString ''c'']"
    unfolding s field_rule_def by simp
  from c have 3: "weaknesses ?r
      = [JString ''No weaknesses identified'', JString ''N/A'', JString ''N/A'']"
    unfolding w field_rule_def by simp
  from 1 2 3 show ?thesis by simp
qed

text \<open>
  The claim as stated speaks of every reply text and of the default list of each field.
  A text that is not JSON gives the lists of the \<open>catch\<close> block instead. So does a reply
  whose \<open>overallPerformance\<close> is a number although its \<open>strengths\<close> is a list of 3
  entries: the number has no method \<open>toLowerCase\<close>, and the TypeError ends the validation
  of all fields.
\<close>

theorem validated_result_analysis_counterexample:
  "JSON_parse_sample (rawAnalysis (Some ''I cannot do that.'')) = None
   \<and> strengths (analyzeResults JSON_parse_sample (Resolved (Some ''I cannot do that.'')))
       = [JString ''Could not analyze'', JString ''N/A'', JString ''N/A'']
   \<and> JSON_parse_sample (rawAnalysis (Some numeric_text)) = Some numeric_value
   \<and> own_prop numeric_value ''strengths''
       = Some (JArray [JString ''a'', JString ''b'', JString ''c''])
   \<and> validatedAnalysis numeric_value = Inl TypeError
   \<and> strengths (analyzeResults JSON_parse_sample (Resolved (Some numeric_text)))
       = [JString ''Could not analyze'', JString ''N/A'', JString ''N/A'']"
  by code_simp

section \<open>The course of an interview session\<close>

lemma run_Nil: "run JSON_parse s [] = s"
  by (simp add: run_def)

lemma run_Cons: "run JSON_parse s (ev # evs) = run JSON_parse (ui_step JSON_parse s ev) evs"
  by (simp add: run_def)

lemma handleAnswerSubmit_advance:
  assumes "trim (answer s) \<noteq> []"
    and "currentQuestionIndex s + 1 < length (questions s)"
  shows "currentQuestionIndex (fst (handleAnswerSubmit JSON_parse (Resolved c) ar s))
           = currentQuestionIndex s + 1"
    and "interviewCompleted (fst (handleAnswerSubmit JSON_parse (Resolved c) ar s))
           = interviewCompleted s"
    and "interviewing (fst (handleAnswerSubmit JSON_parse (Resolved c) ar s)) = interviewing s"
    and "snd (handleAnswerSubmit JSON_parse (Resolved c) ar s)
           = [ScoreAnswer (currentQuestion s) (answer s)]"
  using assms by (simp_all add: handleAnswerSubmit_def Let_def)

lemma handleAnswerSubmit_complete:
  assumes "trim (answer s) \<noteq> []"
    and "length (questions s) \<le> currentQuestionIndex s + 1"
  shows "currentQuestionIndex (fst (handleAnswerSubmit JSON_parse (Resolved c) ar s))
           = currentQuestionIndex s"
    and "interviewCompleted (fst (handleAnswerSubmit JSON_parse (Resolved c) ar s))"
    and "\<not> interviewing (fst (handleAnswerSubmit JSON_parse (Resolved c) ar s))"
    and "resultAnalysis (fst (handleAnswerSubmit JSON_parse (Resolved c) ar s))
           = Some (analyzeResults JSON_parse ar)"
    and "\<exists>entries. snd (handleAnswerSubmit JSON_parse (Resolved c) ar s)
           = [ScoreAnswer (currentQuestion s) (answer s), AnalyzeResults entries]"
  using assms by (simp_all add: handleAnswerSubmit_def Let_def)

lemma handleAnswerSubmit_questions:
  "questions (fst (handleAnswerSubmit JSON_parse fr ar s)) = questions s"
  by (cases fr) (simp_all add: handleAnswerSubmit_def Let_def)

lemma handleAnswerSubmit_index:
  assumes "currentQuestionIndex s \<le> length (questions s)"
    and "questions s \<noteq> [] \<longrightarrow> currentQuestionIndex s < length (questions s)"
  shows "currentQuestionIndex (fst (handleAnswerSubmit JSON_parse fr ar s)) \<le> length (questions s)
    \<and> (questions s \<noteq> [] \<longrightarrow>
         currentQuestionIndex (fst (handleAnswerSubmit JSON_parse fr ar s)) < length (questions s))"
  using assms by (cases fr) (simp_all add: handleAnswerSubmit_def Let_def)

lemma ui_step_questions: "questions (ui_step JSON_parse s ev) = questions s"
  by (cases ev) (simp_all add: ui_step_def handleAnswerSubmit_questions)

lemma ui_step_index:
  assumes "currentQuestionIndex s \<le> length (questions s)"
    and "questions s \<noteq> [] \<longrightarrow> currentQuestionIndex s < length (questions s)"
  shows "currentQuestionIndex (ui_step JSON_parse s ev) \<le> length (questions s)
    \<and> (questions s \<noteq> [] \<longrightarrow> currentQuestionIndex (ui_step JSON_parse s ev) < length (questions s))"
proof (cases ev)
  case (SetAnswer t)
  then show ?thesis using assms by (simp add: ui_step_def)
next
  case (SubmitAnswer fr ar)
  then show ?thesis
    using assms handleAnswerSubmit_index [OF assms, of JSON_parse fr ar]
    by (simp add: ui_step_def)
qed

lemma ui_step_completed: "interviewCompleted s \<Longrightarrow> ui_step JSON_parse s ev = s"
  by (simp add: ui_step_def form_shown_def)

lemma run_completed:
  "interviewCompleted s \<Longrightarrow> run JSON_parse s evs = s \<and> completions JSON_parse s evs = 0"
  by (induction evs) (simp_all add: run_Nil run_Cons ui_step_completed)

lemma run_questions: "questions (run JSON_parse s evs) = questions s"
  by (induction evs arbitrary: s) (simp_all add: run_Nil run_Cons ui_step_questions)

lemma run_index:
  assumes "currentQuestionIndex s \<le> length (questions s)"
    and "questions s \<noteq> [] \<longrightarrow> currentQuestionIndex s < length (questions s)"
  shows "currentQuestionIndex (run JSON_parse s evs) \<le> length (questions s)
    \<and> (questions s \<noteq> [] \<longrightarrow> currentQuestionIndex (run JSON_parse s evs) < length (questions s))"
  using assms
proof (induction evs arbitrary: s)
  case Nil
  then show ?case by (simp add: run_Nil)
next
  case (Cons ev evs)
  have "currentQuestionIndex (ui_step JSON_parse s ev) \<le> length (questions (ui_step JSON_parse s ev))"
    and "questions (ui_step JSON_parse s ev) \<noteq> [] \<longrightarrow>
      currentQuestionIndex (ui_step JSON_parse s ev) < length (questions (ui_step JSON_parse s ev))"
    using ui_step_index [OF Cons.prems, of JSON_parse ev] by (simp_all add: ui_step_questions)
  from Cons.IH [OF this] show ?case by (simp add: run_Cons ui_step_questions)
qed

lemma completions_once:
  "completions JSON_parse s evs \<le> 1
   \<and> (interviewCompleted (run JSON_parse s evs)
        \<longleftrightarrow> interviewCompleted s \<or> completions JSON_parse s evs = 1)"
proof (induction evs arbitrary: s)
  case Nil
  then show ?case by (simp add: run_Nil)
next
  case (Cons ev evs)
  let ?s' = "ui_step JSON_parse s ev"
  show ?case
  proof (cases "interviewCompleted s")
    case True
    then show ?thesis using run_completed [OF True, of JSON_parse "ev # evs"] by simp
  next
    case False
    show ?thesis
    proof (cases "interviewCompleted ?s'")
      case True
      then show ?thesis using False run_completed [OF True, of JSON_parse evs]
        by (simp add: run_Cons)
    next
      case f: False
      then show ?thesis using False Cons.IH [of ?s'] by (simp add: run_Cons)
    qed
  qed
qed

lemma startInterview_ready:
  assumes "skills s0 \<noteq> []"
  shows "currentQuestionIndex (startInterview response s0) = 0"
    and "\<not> interviewCompleted (startInterview response s0)"
    and "interviewing (startInterview response s0)"
  using assms
  by (simp_all add: startInterview_def Let_def split: sum.splits)

text \<open>
  Claim C7, as amended. In a session begun by \<open>startInterview\<close> and driven by any events,
  the current question index never exceeds the number of questions, and it stays below
  that number when there is a question. The completion flag is set at most once, and it
  is set in the end exactly when it was set once. A submission of a non-blank answer whose
  scoring call resolves completes the session exactly when the index plus one is not
  below the number of questions, which, for an index below that number, is when the index
  plus one equals it. Such a submission leaves the stored index as it is, stores the
  result of the analysis and only then leaves \<open>interviewing\<close> and sets the flag; every
  other such submission advances the index by one.
\<close>

theorem session_index_and_completion:
  assumes "skills s0 \<noteq> []"
  shows "(let s = run JSON_parse (startInterview response s0) evs in
           currentQuestionIndex s \<le> length (questions s)
           \<and> (questions s \<noteq> [] \<longrightarrow> currentQuestionIndex s < length (questions s))
           \<and> (interviewCompleted s \<longleftrightarrow> completions JSON_parse (startInterview response s0) evs = 1))
    \<and> completions JSON_parse (startInterview response s0) evs \<le> 1
    \<and> (trim (answer s) \<noteq> [] \<and> \<not> interviewCompleted s \<longrightarrow>
         (let s' = fst (handleAnswerSubmit JSON_parse (Resolved content) analysisResponse s) in
            (interviewCompleted s' \<longleftrightarrow> length (questions s) \<le> currentQuestionIndex s + 1)
            \<and> (currentQuestionIndex s < length (questions s) \<longrightarrow>
                 (interviewCompleted s' \<longleftrightarrow> currentQuestionIndex s + 1 = length (questions s)))
            \<and> (interviewCompleted s' \<longrightarrow>
                 currentQuestionIndex s' = currentQuestionIndex s
                 \<and> resultAnalysis s' = Some (analyzeResults JSON_parse analysisResponse)
                 \<and> \<not> interviewing s'
                 \<and> (\<exists>entries. snd (handleAnswerSubmit JSON_parse (Resolved content)
                                      analysisResponse s)
                       = [ScoreAnswer (currentQuestion s) (answer s), AnalyzeResults entries]))
            \<and> (\<not> interviewCompleted s' \<longrightarrow>
                 currentQuestionIndex s' = currentQuestionIndex s + 1)))"
proof -
  let ?s1 = "startInterview response s0"
  have i: "currentQuestionIndex ?s1 \<le> length (questions ?s1)"
    and j: "questions ?s1 \<noteq> [] \<longrightarrow> currentQuestionIndex ?s1 < length (questions ?s1)"
    and n: "\<not> interviewCompleted ?s1"
    using startInterview_ready [OF assms, of response] by simp_all
  have a: "currentQuestionIndex (run JSON_parse ?s1 evs) \<le> length (questions (run JSON_parse ?s1 evs))
    \<and> (questions (run JSON_parse ?s1 evs) \<noteq> [] \<longrightarrow>
         currentQuestionIndex (run JSON_parse ?s1 evs) < length (questions (run JSON_parse ?s1 evs)))"
    using run_index [OF i j, of JSON_parse evs] by (simp add: run_questions)
  have b: "completions JSON_parse ?s1 evs \<le> 1"
    and c: "interviewCompleted (run JSON_parse ?s1 evs) \<longleftrightarrow> completions JSON_parse ?s1 evs = 1"
    using completions_once [of JSON_parse ?s1 evs] n by simp_all
  have d: "trim (answer s) \<noteq> [] \<and> \<not> interviewCompleted s \<longrightarrow>
         (let s' = fst (handleAnswerSubmit JSON_parse (Resolved content) analysisResponse s) in
            (interviewCompleted s' \<longleftrightarrow> length (questions s) \<le> currentQuestionIndex s + 1)
            \<and> (currentQuestionIndex s < length (questions s) \<longrightarrow>
                 (interviewCompleted s' \<longleftrightarrow> currentQuestionIndex s + 1 = length (questions s)))
            \<and> (interviewCompleted s' \<longrightarrow>
                 currentQuestionIndex s' = currentQuestionIndex s
                 \<and> resultAnalysis s' = Some (analyzeResults JSON_parse analysisResponse)
                 \<and> \<not> interviewing s'
                 \<and> (\<exists>entries. snd (handleAnswerSubmit JSON_parse (Resolved content)
                                      analysisResponse s)
                       = [ScoreAnswer (currentQuestion s) (answer s), AnalyzeResults entries]))
            \<and> (\<not> interviewCompleted s' \<longrightarrow>
                 currentQuestionIndex s' = currentQuestionIndex s + 1))"
  proof
    assume h: "trim (answer s) \<noteq> [] \<and> \<not> interviewCompleted s"
    show "let s' = fst (handleAnswerSubmit JSON_parse (Resolved content) analysisResponse s) in
            (interviewCompleted s' \<longleftrightarrow> length (questions s) \<le> currentQuestionIndex s + 1)
            \<and> (currentQuestionIndex s < length (questions s) \<longrightarrow>
                 (interviewCompleted s' \<longleftrightarrow> currentQuestionIndex s + 1 = length (questions s)))
            \<and> (interviewCompleted s' \<longrightarrow>
                 currentQuestionIndex s' = currentQuestionIndex s
                 \<and> resultAnalysis s' = Some (analyzeResults JSON_parse analysisResponse)
                 \<and> \<not> interviewing s'
                 \<and> (\<exists>entries. snd (handleAnswerSubmit JSON_parse (Resolved content)
                                      analysisResponse s)
                       = [ScoreAnswer (currentQuestion s) (answer s), AnalyzeResults entries]))
            \<and> (\<not> interviewCompleted s' \<longrightarrow>
                 currentQuestionIndex s' = currentQuestionIndex s + 1)"
    proof (cases "currentQuestionIndex s + 1 < length (questions s)")
      case True
      from handleAnswerSubmit_advance [OF _ True, of JSON_parse content analysisResponse] h True
      show ?thesis unfolding Let_def by auto
    next
      case False
      then have l: "length (questions s) \<le> currentQuestionIndex s + 1" by simp
      from handleAnswerSubmit_complete [OF _ l, of JSON_parse content analysisResponse] h l
      show ?thesis unfolding Let_def by auto
    qed
  qed
  from a b c d show ?thesis unfolding Let_def by blast
qed


theorem session_index_and_completion_witness:
  "completions JSON_parse_sample started two_answers = 1
   \<and> interviewCompleted (run JSON_parse_sample started two_answers)
   \<and> currentQuestionIndex (run JSON_parse_sample started two_answers) = 1
   \<and> length (questions (run JSON_parse_sample started two_answers)) = 2"
proof -
  have k: "skills uploaded \<noteq> []" by code_simp
  have c: "completions JSON_parse_sample started two_answers = 1" by code_simp
  have i: "currentQuestionIndex (run JSON_parse_sample started two_answers) = 1" by code_simp
  have q: "length (questions (run JSON_parse_sample started two_answers)) = 2" by code_simp
  from session_index_and_completion [OF k, of JSON_parse_sample
      "Resolved (Some two_questions_text)" two_answers]
  have "interviewCompleted (run JSON_parse_sample started two_answers)
      \<longleftrightarrow> completions JSON_parse_sample started two_answers = 1"
    unfolding Let_def started_def by blast
  with c i q show ?thesis by simp
qed

text \<open>
  The claim as stated sets the flag at the moment the index reaches the question count.
  In the session with two questions the stored index is 0, 0, 1, 1, 1 over the four
  events: it is 1 when the flag is set and never 2. In the session whose question list
  is empty the first submission sets the flag, with an index after increment of 1 and a
  question count of 0.
\<close>

theorem index_reaches_count_counterexample:
  "length (questions started) = 2
   \<and> map (\<lambda>n. currentQuestionIndex (run JSON_parse_sample started (take n two_answers)))
       [0, 1, 2, 3, 4] = [0, 0, 1, 1, 1]
   \<and> map (\<lambda>n. interviewCompleted (run JSON_parse_sample started (take n two_answers)))
       [0, 1, 2, 3, 4] = [False, False, False, False, True]
   \<and> questions started_empty = []
   \<and> currentQuestionIndex started_empty = 0
   \<and> interviewCompleted (run JSON_parse_sample started_empty one_answer)"
  by code_simp

end
